theory Spec2Isabelle
  imports Main "HOL-Library.Sublist"
begin

section \<open>Strings\<close>

text \<open>
  A JavaScript string is modelled as a \<open>string\<close> holding the UTF-8 bytes of its text.
  On well-formed text the operations below (\<open>includes\<close>, \<open>indexOf\<close>, \<open>slice\<close>, \<open>trim\<close>)
  agree with their JavaScript counterparts; unpaired surrogates have no counterpart here.
\<close>

definition str_includes :: "string \<Rightarrow> string \<Rightarrow> bool" where
  \<comment> \<open>\<open>s.includes(t)\<close>\<close>
  "str_includes s t = sublist t s"

fun indexOf :: "string \<Rightarrow> char \<Rightarrow> int" where
  \<comment> \<open>\<open>s.indexOf(c)\<close> for a one-character needle: \<open>-1\<close> when absent\<close>
  "indexOf [] c = -1"
| "indexOf (x # xs) c =
     (if x = c then 0 else (let i = indexOf xs c in if i = -1 then -1 else i + 1))"

definition slice0 :: "string \<Rightarrow> int \<Rightarrow> string" where
  \<comment> \<open>\<open>s.slice(0, n)\<close> for \<open>n \<ge> 0\<close>\<close>
  "slice0 s n = take (nat n) s"

definition js_whitespace :: "string list" where
  \<comment> \<open>the WhiteSpace and LineTerminator code points of ECMAScript, in UTF-8:
      U+0009..U+000D, U+0020, U+00A0, U+1680, U+2000..U+200A, U+2028, U+2029, U+202F,
      U+205F, U+3000, U+FEFF\<close>
  "js_whitespace =
     [[CHR 0x09], [CHR 0x0A], [CHR 0x0B], [CHR 0x0C], [CHR 0x0D], [CHR 0x20],
      [CHR 0xC2, CHR 0xA0],
      [CHR 0xE1, CHR 0x9A, CHR 0x80],
      [CHR 0xE2, CHR 0x80, CHR 0x80], [CHR 0xE2, CHR 0x80, CHR 0x81],
      [CHR 0xE2, CHR 0x80, CHR 0x82], [CHR 0xE2, CHR 0x80, CHR 0x83],
      [CHR 0xE2, CHR 0x80, CHR 0x84], [CHR 0xE2, CHR 0x80, CHR 0x85],
      [CHR 0xE2, CHR 0x80, CHR 0x86], [CHR 0xE2, CHR 0x80, CHR 0x87],
      [CHR 0xE2, CHR 0x80, CHR 0x88], [CHR 0xE2, CHR 0x80, CHR 0x89],
      [CHR 0xE2, CHR 0x80, CHR 0x8A],
      [CHR 0xE2, CHR 0x80, CHR 0xA8], [CHR 0xE2, CHR 0x80, CHR 0xA9],
      [CHR 0xE2, CHR 0x80, CHR 0xAF],
      [CHR 0xE2, CHR 0x81, CHR 0x9F],
      [CHR 0xE3, CHR 0x80, CHR 0x80],
      [CHR 0xEF, CHR 0xBB, CHR 0xBF]]"

function trimStart :: "string \<Rightarrow> string" where
  "trimStart s =
     (case find (\<lambda>w. prefix w s) js_whitespace of
        None \<Rightarrow> s
      | Some w \<Rightarrow> trimStart (drop (length w) s))"
  by pat_completeness auto
termination
proof (relation "measure length")
  show "wf (measure length)" by simp
next
  fix s w
  assume "find (\<lambda>w. prefix w s) js_whitespace = Some w"
  then have "w \<in> set js_whitespace" and "prefix w s"
    by (auto simp: find_Some_iff)
  then have "w \<noteq> []" and "length w \<le> length s"
    by (auto simp: js_whitespace_def prefix_length_le)
  then show "(drop (length w) s, s) \<in> measure length"
    by (cases w) auto
qed

declare trimStart.simps [simp del]

function trimEnd :: "string \<Rightarrow> string" where
  "trimEnd s =
     (case find (\<lambda>w. suffix w s) js_whitespace of
        None \<Rightarrow> s
      | Some w \<Rightarrow> trimEnd (take (length s - length w) s))"
  by pat_completeness auto
termination
proof (relation "measure length")
  show "wf (measure length)" by simp
next
  fix s w
  assume "find (\<lambda>w. suffix w s) js_whitespace = Some w"
  then have "w \<in> set js_whitespace" and "suffix w s"
    by (auto simp: find_Some_iff)
  then have "w \<noteq> []" and "length w \<le> length s"
    by (auto simp: js_whitespace_def suffix_length_le)
  then show "(take (length s - length w) s, s) \<in> measure length"
    by (cases w) auto
qed

declare trimEnd.simps [simp del]

definition trim :: "string \<Rightarrow> string" where
  \<comment> \<open>\<open>s.trim()\<close>\<close>
  "trim s = trimEnd (trimStart s)"

section \<open>The platform's URL objects\<close>

text \<open>
  The URL record of the URL Standard, for URLs whose path is not opaque. The path is kept
  in serialized form and the port as its decimal digits.
\<close>

record url =
  u_scheme :: string
  u_username :: string
  u_password :: string
  u_host :: "string option"
  u_port :: "string option"
  u_path :: string
  u_query :: "string option"
  u_fragment :: "string option"

subsection \<open>application/x-www-form-urlencoded\<close>

type_synonym params = "(string \<times> string) list"

fun split_on :: "char \<Rightarrow> string \<Rightarrow> string list" where
  "split_on c [] = [[]]"
| "split_on c (x # xs) =
     (if x = c then [] # split_on c xs
      else (case split_on c xs of [] \<Rightarrow> [[x]] | h # t \<Rightarrow> (x # h) # t))"

definition hex_value :: "char \<Rightarrow> nat option" where
  "hex_value c =
     (let n = (of_char c :: nat) in
      if 48 \<le> n \<and> n \<le> 57 then Some (n - 48)
      else if 65 \<le> n \<and> n \<le> 70 then Some (n - 55)
      else if 97 \<le> n \<and> n \<le> 102 then Some (n - 87)
      else None)"

definition hex_digit :: "nat \<Rightarrow> char" where
  \<comment> \<open>upper-case hexadecimal digit of a value below 16\<close>
  "hex_digit n = (if n < 10 then char_of (48 + n) else char_of (55 + n))"

definition is_percent_escape :: "string \<Rightarrow> bool" where
  \<comment> \<open>a \<open>%\<close> followed by two hexadecimal digits\<close>
  "is_percent_escape s =
     (case s of
        c # h1 # h2 # rest \<Rightarrow> c = CHR ''%'' \<and> hex_value h1 \<noteq> None \<and> hex_value h2 \<noteq> None
      | _ \<Rightarrow> False)"

function percent_decode :: "string \<Rightarrow> string" where
  \<comment> \<open>an escape becomes its byte; a \<open>%\<close> that starts no escape stays. The bytes are kept
      as they come: the platform goes on to decode them as UTF-8 and puts U+FFFD for
      every ill-formed sequence (\<open>%FF\<close>, say), so this is the platform's result on queries
      whose escapes spell well-formed UTF-8, and differs from it on the others\<close>
  "percent_decode [] = []"
| "percent_decode (c # cs) =
     (if is_percent_escape (c # cs)
      then char_of (16 * the (hex_value (cs ! 0)) + the (hex_value (cs ! 1)))
           # percent_decode (drop 2 cs)
      else c # percent_decode cs)"
  by pat_completeness auto
termination
  by (relation "measure length") auto

definition plus_to_space :: "string \<Rightarrow> string" where
  "plus_to_space s = map (\<lambda>c. if c = CHR ''+'' then CHR '' '' else c) s"

definition urlencoded_parse_pair :: "string \<Rightarrow> string \<times> string" where
  \<comment> \<open>one \<open>name=value\<close> sequence: split at the first \<open>=\<close>, \<open>+\<close> is a space, then percent-decode\<close>
  "urlencoded_parse_pair s =
     (let name = takeWhile (\<lambda>c. c \<noteq> CHR ''='') s;
          val = drop 1 (dropWhile (\<lambda>c. c \<noteq> CHR ''='') s)
      in (percent_decode (plus_to_space name), percent_decode (plus_to_space val)))"

definition query_sequences :: "string \<Rightarrow> string list" where
  \<comment> \<open>the non-empty sequences between the \<open>&\<close> of a query: its parameters as written\<close>
  "query_sequences s = filter (\<lambda>q. q \<noteq> []) (split_on CHR ''&'' s)"

definition urlencoded_parse :: "string \<Rightarrow> params" where
  "urlencoded_parse s = map urlencoded_parse_pair (query_sequences s)"

definition urlencoded_unreserved :: "char \<Rightarrow> bool" where
  \<comment> \<open>bytes outside the application/x-www-form-urlencoded percent-encode set:
      ASCII alphanumerics and \<open>*-._\<close>\<close>
  "urlencoded_unreserved c =
     (let n = (of_char c :: nat) in
      (48 \<le> n \<and> n \<le> 57) \<or> (65 \<le> n \<and> n \<le> 90) \<or> (97 \<le> n \<and> n \<le> 122)
      \<or> n = 42 \<or> n = 45 \<or> n = 46 \<or> n = 95)"

definition urlencoded_byte :: "char \<Rightarrow> string" where
  "urlencoded_byte c =
     (if c = CHR '' '' then ''+''
      else if urlencoded_unreserved c then [c]
      else [CHR ''%'', hex_digit (of_char c div 16), hex_digit (of_char c mod 16)])"

definition urlencoded_string :: "string \<Rightarrow> string" where
  "urlencoded_string s = concat (map urlencoded_byte s)"

fun urlencoded_serialize :: "params \<Rightarrow> string" where
  "urlencoded_serialize [] = []"
| "urlencoded_serialize [(k, v)] = urlencoded_string k @ ''='' @ urlencoded_string v"
| "urlencoded_serialize ((k, v) # kvs) =
     urlencoded_string k @ ''='' @ urlencoded_string v @ ''&'' @ urlencoded_serialize kvs"

subsection \<open>URL and URLSearchParams objects\<close>

text \<open>
  A \<open>URL\<close> object holds its URL record and the list of its \<open>URLSearchParams\<close> object,
  which the constructor fills from the query and which every later update writes back.
\<close>

record URL =
  url :: url
  searchParams :: params

definition URL_of :: "url \<Rightarrow> URL" where
  "URL_of u = \<lparr>url = u, searchParams = urlencoded_parse (case u_query u of None \<Rightarrow> [] | Some q \<Rightarrow> q)\<rparr>"

definition protocol :: "URL \<Rightarrow> string" where
  "protocol U = u_scheme (url U) @ '':''"

definition host :: "URL \<Rightarrow> string" where
  "host U =
     (case u_host (url U) of
        None \<Rightarrow> []
      | Some h \<Rightarrow> (case u_port (url U) of None \<Rightarrow> h | Some p \<Rightarrow> h @ '':'' @ p))"

definition pathname :: "URL \<Rightarrow> string" where
  "pathname U = u_path (url U)"

definition search :: "URL \<Rightarrow> string" where
  "search U =
     (case u_query (url U) of
        None \<Rightarrow> []
      | Some q \<Rightarrow> if q = [] then [] else ''?'' @ q)"

definition toString :: "URL \<Rightarrow> string" where
  \<comment> \<open>the URL serializer\<close>
  "toString U =
     (let u = url U in
      u_scheme u @ '':''
      @ (case u_host u of
           Some h \<Rightarrow>
             ''//''
             @ (if u_username u \<noteq> [] \<or> u_password u \<noteq> []
                then u_username u
                     @ (if u_password u \<noteq> [] then '':'' @ u_password u else [])
                     @ ''@''
                else [])
             @ h
             @ (case u_port u of None \<Rightarrow> [] | Some p \<Rightarrow> '':'' @ p)
         | None \<Rightarrow> if prefix ''//'' (u_path u) then ''/.'' else [])
      @ u_path u
      @ (case u_query u of None \<Rightarrow> [] | Some q \<Rightarrow> ''?'' @ q)
      @ (case u_fragment u of None \<Rightarrow> [] | Some f \<Rightarrow> ''#'' @ f))"

definition set_search_empty :: "URL \<Rightarrow> URL" where
  \<comment> \<open>\<open>U.search = ""\<close>: the query becomes null and the list is emptied\<close>
  "set_search_empty U = \<lparr>url = (url U)\<lparr>u_query := None\<rparr>, searchParams = []\<rparr>"

fun params_set :: "params \<Rightarrow> string \<Rightarrow> string \<Rightarrow> params" where
  \<comment> \<open>the first tuple named \<open>k\<close> takes the value, the others are removed; else append\<close>
  "params_set [] k v = [(k, v)]"
| "params_set ((k', v') # kvs) k v =
     (if k' = k then (k, v) # filter (\<lambda>kv. fst kv \<noteq> k) kvs
      else (k', v') # params_set kvs k v)"

definition searchParams_set :: "URL \<Rightarrow> string \<Rightarrow> string \<Rightarrow> URL" where
  \<comment> \<open>\<open>U.searchParams.set(k, v)\<close>, followed by the update of the URL's query\<close>
  "searchParams_set U k v =
     (let l = params_set (searchParams U) k v;
          q = urlencoded_serialize l
      in \<lparr>url = (url U)\<lparr>u_query := (if q = [] then None else Some q)\<rparr>, searchParams = l\<rparr>)"

definition params_get :: "params \<Rightarrow> string \<Rightarrow> string option" where
  \<comment> \<open>\<open>params.get(k)\<close>: the value of the first tuple named \<open>k\<close>, or null\<close>
  "params_get l k = map_of l k"

definition params_has :: "params \<Rightarrow> string \<Rightarrow> bool" where
  "params_has l k = (k \<in> fst ` set l)"

definition truthy :: "string option \<Rightarrow> bool" where
  \<comment> \<open>a string-or-null is truthy when it is a non-empty string\<close>
  "truthy v = (case v of None \<Rightarrow> False | Some s \<Rightarrow> s \<noteq> [])"

section \<open>Errors, collaborators and data\<close>

text \<open>
  Every \<open>throw\<close> of \<open>index.ts\<close> is one constructor, named as the failure kinds of the
  specification name them:
  \<^item> \<open>InvalidUrl\<close>: the \<open>TypeError\<close> of \<open>new URL(...)\<close> on a string that is not a URL;
  \<^item> \<open>DiscoveryFailed\<close>: an exception raised by \<open>discover\<close>, passed on unchanged;
  \<^item> \<open>NoProvidersFound\<close>: "No providers found for the given identifier. ...";
  \<^item> \<open>NoUsableProviders\<close>: "No usable providers found for the given identifier";
  \<^item> \<open>MissingEndpoint\<close>: "No provider endpoint specified.";
  \<^item> \<open>EmptyClientReturnUrl\<close>: "OpenId Client return url is empty.";
  \<^item> \<open>MissingReturnToParam\<close>: "openId.return_to query param is missing in the request URL.";
  \<^item> \<open>UnparsableUrl\<close>: "... could not been parsed.";
  \<^item> \<open>ReturnUrlMismatch\<close>: "OpenID Client and OpenID return_to URLs do not match. ...";
  \<^item> \<open>QueryParamMismatch\<close>: "Query parameters in OpenID return_to and OpenID Client return
    URL do not match.";
  \<^item> \<open>MalformedAssertion\<close>: "Assertion request is malformed. Empty params.";
  \<^item> \<open>ProviderError m\<close>: the error whose message is the \<open>openid.error\<close> parameter;
  \<^item> \<open>AuthenticationCancelled\<close>: "Authentication cancelled.";
  \<^item> \<open>MissingNonce\<close>: "Missing response nonce. ...";
  \<^item> \<open>InvalidNonceFormat\<close>: "Response nonce has invalid date format or no date at all. ...";
  \<^item> \<open>NonceTimestampUnparsable\<close>: "Response nonce could not been converted to timestamp. ...";
  \<^item> \<open>NonceSkewTooLarge\<close>: "Response nonce is skewed by more than 5 minutes. ...";
  \<^item> \<open>NonceReplayed\<close>: "Response nonce has already been used (replayed). ...";
  \<^item> \<open>MissingClaimedIdentifier\<close>: "Could not obtain claimed identifier. ...";
  \<^item> \<open>NoProviderForClaimedIdentifier\<close>: "No OpenID provider was discovered for the asserted
    claimed identifier. ...";
  \<^item> \<open>MissingSignature\<close>: "No signature in response.".
\<close>

datatype error =
    InvalidUrl
  | DiscoveryFailed string
  | NoProvidersFound
  | NoUsableProviders
  | MissingEndpoint
  | EmptyClientReturnUrl
  | MissingReturnToParam
  | UnparsableUrl
  | ReturnUrlMismatch
  | QueryParamMismatch
  | MalformedAssertion
  | ProviderError "string option"
  | AuthenticationCancelled
  | MissingNonce
  | InvalidNonceFormat
  | NonceTimestampUnparsable
  | NonceSkewTooLarge
  | NonceReplayed
  | MissingClaimedIdentifier
  | NoProviderForClaimedIdentifier
  | MissingSignature

record Provider =
  endpoint :: "string option"
  version :: "string option"

record ProviderResponse =
  authenticated :: "bool option"
  claimedIdentifier :: "string option"

text \<open>
  What the client calls and does not define. \<open>url_parser\<close> is the URL parser behind
  \<open>new URL(s)\<close> (\<open>None\<close> when the constructor throws); \<open>date_parse\<close> is the time value, in
  milliseconds, of \<open>new Date(s)\<close> (\<open>None\<close> when it is \<open>NaN\<close>); \<open>discover\<close> is the module
  \<open>./discover\<close>, which is imported by \<open>index.ts\<close>: it throws (\<open>Inl\<close> the message), or returns
  a list of providers or nothing (\<open>None\<close>). The clock is not part of the platform: a
  function that reads \<open>Date.now()\<close> takes the readings as its argument \<open>now\<close>, where
  \<open>now k\<close> is what the \<open>k\<close>-th read of \<open>Date.now()\<close> during the call returns (counted from
  0). Nothing is assumed of the readings: the clock may advance between two reads, and a
  wall clock may be set back.
\<close>

record platform =
  url_parser :: "string \<Rightarrow> url option"
  date_parse :: "string \<Rightarrow> int option"
  discover :: "string \<Rightarrow> string + Provider list option"

definition new_URL :: "platform \<Rightarrow> string \<Rightarrow> URL option" where
  "new_URL P s = map_option URL_of (url_parser P s)"

definition parseURL :: "platform \<Rightarrow> string \<Rightarrow> URL option" where
  \<comment> \<open>the helper of \<open>index.ts\<close>: \<open>new URL\<close> with the exception turned into \<open>null\<close>\<close>
  "parseURL P val = new_URL P val"

definition FIVE_MINUTES_IN_MS :: int where
  "FIVE_MINUTES_IN_MS = 300000"

text \<open>
  The client object: its only field is the nonce store, a \<open>Date\<close> being its time value. The
  store is the list of the object's properties in the order in which \<open>for ... in\<close> visits
  them, which is the order of insertion (no key is an array index: a stored nonce starts,
  after trimming, with a date).
\<close>

record SteamOpenIdClient =
  nonces :: "(string \<times> int) list"

definition new_client :: SteamOpenIdClient where
  "new_client = \<lparr>nonces = []\<rparr>"

definition stored :: "SteamOpenIdClient \<Rightarrow> string \<Rightarrow> bool" where
  \<comment> \<open>\<open>nonce in this.nonces\<close>\<close>
  "stored c nonce = (nonce \<in> fst ` set (nonces c))"

section \<open>Initiating authentication\<close>

definition buildUrl :: "platform \<Rightarrow> string \<Rightarrow> params \<Rightarrow> error + string" where
  "buildUrl P theUrl ps =
     (case new_URL P theUrl of
        None \<Rightarrow> Inl InvalidUrl
      | Some parsedUrl \<Rightarrow>
          Inr (toString (fold (\<lambda>(key, v) U. searchParams_set U key v) ps
                 (set_search_empty parsedUrl))))"

definition auth_params :: "string \<Rightarrow> params" where
  \<comment> \<open>the object literal of \<open>requestAuthentication\<close>, in the order of its keys\<close>
  "auth_params returnUrl =
     [(''openid.mode'', ''checkid_setup''),
      (''openid.ns'', ''http://specs.openid.net/auth/2.0''),
      (''openid.claimed_id'', ''http://specs.openid.net/auth/2.0/identifier_select''),
      (''openid.identity'', ''http://specs.openid.net/auth/2.0/identifier_select''),
      (''openid.return_to'', returnUrl)]"

definition requestAuthentication :: "platform \<Rightarrow> Provider \<Rightarrow> string \<Rightarrow> error + string" where
  "requestAuthentication P provider returnUrl =
     (if \<not> truthy (endpoint provider) then Inl MissingEndpoint
      else buildUrl P (the (endpoint provider)) (auth_params returnUrl))"

fun chooseProvider :: "platform \<Rightarrow> Provider list \<Rightarrow> string \<Rightarrow> error + string" where
  \<comment> \<open>the \<open>while\<close> loop over \<open>providerIndex\<close>; an exception of \<open>requestAuthentication\<close>
      is not caught in the loop and leaves it\<close>
  "chooseProvider P [] returnUrl = Inl NoUsableProviders"
| "chooseProvider P (currentProvider # rest) returnUrl =
     (case requestAuthentication P currentProvider returnUrl of
        Inl e \<Rightarrow> Inl e
      | Inr authUrl \<Rightarrow> if authUrl \<noteq> [] then Inr authUrl else chooseProvider P rest returnUrl)"

definition authenticate :: "platform \<Rightarrow> string \<Rightarrow> string \<Rightarrow> error + string" where
  "authenticate P identifier returnUrl =
     (case discover P identifier of
        Inl m \<Rightarrow> Inl (DiscoveryFailed m)
      | Inr None \<Rightarrow> Inl NoProvidersFound
      | Inr (Some providers) \<Rightarrow>
          if providers = [] then Inl NoProvidersFound
          else chooseProvider P providers returnUrl)"

section \<open>Validating the response\<close>

definition checkReturnUrlsAreValid :: "platform \<Rightarrow> URL \<Rightarrow> string \<Rightarrow> error + unit" where
  "checkReturnUrlsAreValid P openIdReturnUrl clientReturnUrl =
     (if clientReturnUrl = [] then Inl EmptyClientReturnUrl
      else
        let openIdReturnTo = params_get (searchParams openIdReturnUrl) ''openid.return_to'' in
        if \<not> truthy openIdReturnTo then Inl MissingReturnToParam
        else
          (case parseURL P (the openIdReturnTo) of
             None \<Rightarrow> Inl UnparsableUrl
           | Some parsedOpenIdReturnTo \<Rightarrow>
               (case parseURL P clientReturnUrl of
                  None \<Rightarrow> Inl UnparsableUrl
                | Some parsedClientReturnUrl \<Rightarrow>
                    if protocol parsedClientReturnUrl \<noteq> protocol parsedOpenIdReturnTo
                       \<or> host parsedClientReturnUrl \<noteq> host parsedOpenIdReturnTo
                       \<or> pathname parsedClientReturnUrl \<noteq> pathname parsedOpenIdReturnTo
                    then Inl ReturnUrlMismatch
                    else if search openIdReturnUrl \<noteq> []
                            \<and> search parsedClientReturnUrl \<noteq> []
                            \<and> \<not> str_includes (search openIdReturnUrl)
                                   (search parsedClientReturnUrl)
                    then Inl QueryParamMismatch
                    else Inr ())))"

definition checkParams :: "params option \<Rightarrow> error + unit" where
  "checkParams ps =
     (case ps of
        None \<Rightarrow> Inl MalformedAssertion
      | Some p \<Rightarrow>
          if params_get p ''openid.mode'' = Some ''error''
          then Inl (ProviderError (params_get p ''openid.error''))
          else if params_get p ''openid.mode'' = Some ''cancel''
          then Inl AuthenticationCancelled
          else Inr ())"

fun sweep :: "(nat \<Rightarrow> int) \<Rightarrow> nat \<Rightarrow> (string \<times> int) list \<Rightarrow> (string \<times> int) list" where
  \<comment> \<open>the \<open>for ... in\<close> loop from its \<open>k\<close>-th read of the clock on: each entry is tested
      against a read of its own and deleted when it meets the condition\<close>
  "sweep now k [] = []"
| "sweep now k ((nonce, t) # rest) =
     (if \<bar>now k - t\<bar> > FIVE_MINUTES_IN_MS then sweep now (Suc k) rest
      else (nonce, t) # sweep now (Suc k) rest)"

definition removeOldNonces :: "(nat \<Rightarrow> int) \<Rightarrow> SteamOpenIdClient \<Rightarrow> SteamOpenIdClient" where
  \<comment> \<open>reads the clock once for each stored entry: reads \<open>0\<close> to \<open>length (nonces c) - 1\<close>\<close>
  "removeOldNonces now c = c\<lparr>nonces := sweep now 0 (nonces c)\<rparr>"

datatype atom = Digit | Lit char

definition is_digit :: "char \<Rightarrow> bool" where
  \<comment> \<open>\<open>\\d\<close>: the ASCII digits\<close>
  "is_digit c = (48 \<le> (of_char c :: nat) \<and> (of_char c :: nat) \<le> 57)"

fun match_atoms :: "atom list \<Rightarrow> string \<Rightarrow> bool" where
  "match_atoms [] s = (s = [])"
| "match_atoms (a # as) [] = False"
| "match_atoms (Digit # as) (c # cs) = (is_digit c \<and> match_atoms as cs)"
| "match_atoms (Lit l # as) (c # cs) = (c = l \<and> match_atoms as cs)"

definition nonce_date_pattern :: "atom list" where
  \<comment> \<open>\<open>\\d{4}-\\d{2}-\\d{2}T\\d{2}:\\d{2}:\\d{2}Z\<close>\<close>
  "nonce_date_pattern =
     [Digit, Digit, Digit, Digit, Lit CHR ''-'', Digit, Digit, Lit CHR ''-'', Digit, Digit,
      Lit CHR ''T'', Digit, Digit, Lit CHR '':'', Digit, Digit, Lit CHR '':'', Digit, Digit,
      Lit CHR ''Z'']"

definition has_line_terminator :: "string \<Rightarrow> bool" where
  \<comment> \<open>what \<open>.\<close> does not match: LF, CR, U+2028 and U+2029\<close>
  "has_line_terminator s =
     (CHR 0x0A \<in> set s \<or> CHR 0x0D \<in> set s
      \<or> sublist [CHR 0xE2, CHR 0x80, CHR 0xA8] s \<or> sublist [CHR 0xE2, CHR 0x80, CHR 0xA9] s)"

definition match_nonce_date :: "string \<Rightarrow> string option" where
  \<comment> \<open>group 1 of \<open>/^(\\d{4}-\\d{2}-\\d{2}T\\d{2}:\\d{2}:\\d{2}Z)(.*)$/\<close>, or \<open>None\<close> without a match\<close>
  "match_nonce_date s =
     (if match_atoms nonce_date_pattern (take 20 s) \<and> \<not> has_line_terminator (drop 20 s)
      then Some (take 20 s) else None)"

definition openid1_only :: "params \<Rightarrow> bool" where
  \<comment> \<open>\<open>params.has("openid.ns") && !params.get("openid.ns")?.includes("2.0")\<close>\<close>
  "openid1_only ps =
     (params_has ps ''openid.ns''
      \<and> (case params_get ps ''openid.ns'' of
             None \<Rightarrow> True
           | Some ns \<Rightarrow> \<not> str_includes ns ''2.0''))"

definition checkNonce ::
  "platform \<Rightarrow> (nat \<Rightarrow> int) \<Rightarrow> SteamOpenIdClient \<Rightarrow> params
     \<Rightarrow> (error + unit) \<times> SteamOpenIdClient" where
  \<comment> \<open>after the reads of the sweep, the skew check makes read number \<open>length (nonces c)\<close>\<close>
  "checkNonce P now c ps =
     (if openid1_only ps then (Inr (), c)
      else
        let nonce = params_get ps ''openid.response_nonce'' in
        if \<not> truthy nonce then (Inl MissingNonce, c)
        else
          (case match_nonce_date (trim (the nonce)) of
             None \<Rightarrow> (Inl InvalidNonceFormat, c)
           | Some nonceDate \<Rightarrow>
               if nonceDate = [] \<or> str_includes nonceDate ''.'' then (Inl InvalidNonceFormat, c)
               else
                 (case date_parse P nonceDate of
                    None \<Rightarrow> (Inl NonceTimestampUnparsable, c)
                  | Some timestamp \<Rightarrow>
                      let c1 = removeOldNonces now c in
                      if \<bar>now (length (nonces c)) - timestamp\<bar> > FIVE_MINUTES_IN_MS
                      then (Inl NonceSkewTooLarge, c1)
                      else if stored c1 (the nonce) then (Inl NonceReplayed, c1)
                      else (Inr (), c1\<lparr>nonces := nonces c1 @ [(the nonce, timestamp)]\<rparr>))))"

definition getCanonicalClaimedIdentifier :: "string \<Rightarrow> string" where
  "getCanonicalClaimedIdentifier claimedId =
     (let index = indexOf claimedId CHR ''#'' in
      if index \<noteq> -1 then slice0 claimedId (max 0 index) else claimedId)"

definition verifyDiscoveredInformation :: "platform \<Rightarrow> params \<Rightarrow> error + ProviderResponse" where
  "verifyDiscoveredInformation P ps =
     (let claimed = params_get ps ''openid.claimed_id'' in
      if \<not> truthy claimed then Inl MissingClaimedIdentifier
      else
        let canonicalClaimedIdentifier = getCanonicalClaimedIdentifier (the claimed) in
        (case discover P canonicalClaimedIdentifier of
           Inl m \<Rightarrow> Inl (DiscoveryFailed m)
         | Inr providers \<Rightarrow>
             if providers = None \<or> providers = Some [] then Inl NoProviderForClaimedIdentifier
             else if \<not> truthy (params_get ps ''openid.signed'')
                     \<or> \<not> truthy (params_get ps ''openid.sig'')
             then Inl MissingSignature
             else Inr \<lparr>authenticated = Some True,
                       claimedIdentifier = params_get ps ''openid.claimed_id''\<rparr>))"

definition validateResponse ::
  "platform \<Rightarrow> (nat \<Rightarrow> int) \<Rightarrow> SteamOpenIdClient \<Rightarrow> string \<Rightarrow> string
     \<Rightarrow> (error + ProviderResponse) \<times> SteamOpenIdClient" where
  \<comment> \<open>\<open>now\<close> gives the reads of the clock during the call, all of them made by
      \<open>checkNonce\<close>; the result is paired with the client after the call\<close>
  "validateResponse P now c responseUrl returnUrl =
     (case new_URL P (trim responseUrl) of
        None \<Rightarrow> (Inl InvalidUrl, c)
      | Some assertionUrl \<Rightarrow>
          let ps = searchParams assertionUrl in
          (case checkReturnUrlsAreValid P assertionUrl returnUrl of
             Inl e \<Rightarrow> (Inl e, c)
           | Inr _ \<Rightarrow>
               (case checkParams (Some ps) of
                  Inl e \<Rightarrow> (Inl e, c)
                | Inr _ \<Rightarrow>
                    (case checkNonce P now c ps of
                       (Inl e, c') \<Rightarrow> (Inl e, c')
                     | (Inr _, c') \<Rightarrow> (verifyDiscoveredInformation P ps, c')))))"

text \<open>
  The clients that a new client can become: each call of \<open>validateResponse\<close>, with any
  readings of the clock and on any arguments, leaves the next one. (\<open>authenticate\<close> does
  not touch the client.)
\<close>

inductive reachable :: "platform \<Rightarrow> SteamOpenIdClient \<Rightarrow> bool" for P :: platform where
  reachable_new: "reachable P new_client"
| reachable_validate:
    "reachable P c \<Longrightarrow> reachable P (snd (validateResponse P now c responseUrl returnUrl))"

section \<open>A platform for the examples\<close>

text \<open>
  The theorems below hold for every platform. Their instances on concrete inputs use this
  one: a URL parser for \<open>http\<close> and \<open>https\<close> URLs that are already in normal form (no
  credentials, lower-case host, no dot segments, nothing left to percent-encode), on which
  it returns the record that the URL Standard's parser returns, a \<open>Date\<close> parser for
  \<open>YYYY-MM-DDTHH:MM:SSZ\<close>, and a discovery that knows one provider. The two strings on
  which the examples need the URL parser to fail, \<open>not a url\<close> and \<open>/openid/login\<close>, have
  no scheme: the URL Standard's parser fails on them as well.
\<close>

definition basic_url_parser :: "string \<Rightarrow> url option" where
  "basic_url_parser s =
     (let sch = (if prefix ''https://'' s then Some ''https''
                 else if prefix ''http://'' s then Some ''http'' else None)
      in case sch of
           None \<Rightarrow> None
         | Some scheme \<Rightarrow>
             let rest = drop (length scheme + 3) s;
                 in_auth = (\<lambda>c. c \<noteq> CHR ''/'' \<and> c \<noteq> CHR ''?'' \<and> c \<noteq> CHR ''#'');
                 in_path = (\<lambda>c. c \<noteq> CHR ''?'' \<and> c \<noteq> CHR ''#'');
                 in_query = (\<lambda>c. c \<noteq> CHR ''#'');
                 auth = takeWhile in_auth rest;
                 rest1 = dropWhile in_auth rest;
                 path = takeWhile in_path rest1;
                 rest2 = dropWhile in_path rest1;
                 has_query = prefix ''?'' rest2;
                 rest3 = (if has_query then dropWhile in_query (tl rest2) else rest2)
             in if auth = [] \<or> CHR ''@'' \<in> set auth then None
                else Some \<lparr>u_scheme = scheme, u_username = [], u_password = [],
                           u_host = Some (takeWhile (\<lambda>c. c \<noteq> CHR '':'') auth),
                           u_port = (if CHR '':'' \<in> set auth
                                     then Some (tl (dropWhile (\<lambda>c. c \<noteq> CHR '':'') auth))
                                     else None),
                           u_path = (if path = [] then ''/'' else path),
                           u_query = (if has_query then Some (takeWhile in_query (tl rest2))
                                      else None),
                           u_fragment = (if rest3 = [] then None else Some (tl rest3))\<rparr>)"

definition digits_value :: "string \<Rightarrow> int" where
  "digits_value s = foldl (\<lambda>a c. 10 * a + (int (of_char c) - 48)) 0 s"

definition days_in_month :: "int \<Rightarrow> int \<Rightarrow> int" where
  "days_in_month y m =
     (if m = 2 then (if y mod 4 = 0 \<and> (y mod 100 \<noteq> 0 \<or> y mod 400 = 0) then 29 else 28)
      else if m = 4 \<or> m = 6 \<or> m = 9 \<or> m = 11 then 30 else 31)"

definition days_from_civil :: "int \<Rightarrow> int \<Rightarrow> int \<Rightarrow> int" where
  \<comment> \<open>days from 1970-01-01 to the given day of the proleptic Gregorian calendar\<close>
  "days_from_civil y m d =
     (let y' = (if m \<le> 2 then y - 1 else y);
          era = y' div 400;
          yoe = y' - era * 400;
          doy = (153 * (if m > 2 then m - 3 else m + 9) + 2) div 5 + d - 1;
          doe = yoe * 365 + yoe div 4 - yoe div 100 + doy
      in era * 146097 + doe - 719468)"

definition iso_utc_ms :: "string \<Rightarrow> int option" where
  "iso_utc_ms s =
     (if \<not> match_atoms nonce_date_pattern s then None
      else
        let y = digits_value (take 4 s);
            mo = digits_value (take 2 (drop 5 s));
            d = digits_value (take 2 (drop 8 s));
            h = digits_value (take 2 (drop 11 s));
            mi = digits_value (take 2 (drop 14 s));
            se = digits_value (take 2 (drop 17 s))
        in if 1 \<le> mo \<and> mo \<le> 12 \<and> 1 \<le> d \<and> d \<le> days_in_month y mo
              \<and> mi \<le> 59 \<and> se \<le> 59 \<and> (h \<le> 23 \<or> (h = 24 \<and> mi = 0 \<and> se = 0))
           then Some ((((days_from_civil y mo d * 24 + h) * 60 + mi) * 60 + se) * 1000)
           else None)"

definition steam_provider :: Provider where
  "steam_provider =
     \<lparr>endpoint = Some ''https://steamcommunity.com/openid/login'',
      version = Some ''http://specs.openid.net/auth/2.0''\<rparr>"

definition example_discover :: "string \<Rightarrow> string + Provider list option" where
  \<comment> \<open>finds the provider for identifiers under \<open>https://steamcommunity.com/openid\<close> that
      carry no fragment, and nothing for any other identifier\<close>
  "example_discover identifier =
     (if prefix ''https://steamcommunity.com/openid'' identifier \<and> CHR ''#'' \<notin> set identifier
      then Inr (Some [steam_provider]) else Inr None)"

definition example_platform :: platform where
  "example_platform =
     \<lparr>url_parser = basic_url_parser, date_parse = iso_utc_ms, discover = example_discover\<rparr>"

definition readings :: "int list \<Rightarrow> nat \<Rightarrow> int" where
  \<comment> \<open>a clock whose reads return the values of the list in turn, and its last value from
      then on\<close>
  "readings ts k = (if k < length ts then ts ! k else last ts)"

definition fragment_only_platform :: platform where
  \<comment> \<open>discovery knows the example's claimed identifier with its fragment and nothing else,
      not even that identifier without the fragment\<close>
  "fragment_only_platform =
     example_platform\<lparr>discover :=
       (\<lambda>identifier.
          if identifier = ''https://steamcommunity.com/openid/id/76561198000000000#frag''
          then Inr (Some [steam_provider]) else Inr None)\<rparr>"

definition endpointless_first_platform :: platform where
  \<comment> \<open>discovery answers with a provider without endpoint, then the usable one\<close>
  "endpointless_first_platform =
     example_platform\<lparr>discover :=
       (\<lambda>identifier. Inr (Some [\<lparr>endpoint = None, version = None\<rparr>, steam_provider]))\<rparr>"

definition query_endpoint_platform :: platform where
  \<comment> \<open>discovery answers with an endpoint that carries a query and a fragment\<close>
  "query_endpoint_platform =
     example_platform\<lparr>discover :=
       (\<lambda>identifier.
          Inr (Some [\<lparr>endpoint = Some ''https://steamcommunity.com/openid/login?old=1#top'',
                       version = None\<rparr>]))\<rparr>"

definition relative_endpoint_platform :: platform where
  \<comment> \<open>discovery answers with an endpoint that is not an absolute URL\<close>
  "relative_endpoint_platform =
     example_platform\<lparr>discover :=
       (\<lambda>identifier. Inr (Some [\<lparr>endpoint = Some ''/openid/login'', version = None\<rparr>]))\<rparr>"

definition example_claimed :: string where
  \<comment> \<open>the claimed identifier \<open>https://steamcommunity.com/openid/id/76561198000000000#frag\<close>,
      as it is written in a query\<close>
  "example_claimed = ''https%3A%2F%2Fsteamcommunity.com%2Fopenid%2Fid%2F76561198000000000%23frag''"

definition example_query :: "string \<Rightarrow> string \<Rightarrow> string" where
  \<comment> \<open>the query of a positive assertion, with the given nonce and claimed identifier as
      they are written in a query\<close>
  "example_query nonce claimed =
     ''openid.ns=http%3A%2F%2Fspecs.openid.net%2Fauth%2F2.0''
     @ ''&openid.mode=id_res&openid.return_to=https%3A%2F%2Fa.example%2Fcb''
     @ ''&openid.response_nonce='' @ nonce
     @ ''&openid.claimed_id='' @ claimed
     @ ''&openid.signed=signed%2Cop_endpoint&openid.sig=c2ln''"

definition example_response :: "string \<Rightarrow> string \<Rightarrow> string" where
  \<comment> \<open>the response URL that carries this assertion to \<open>https://a.example/cb\<close>\<close>
  "example_response nonce claimed = ''https://a.example/cb?'' @ example_query nonce claimed"

definition example_bound_response :: "string \<Rightarrow> string" where
  \<comment> \<open>a response URL with the given query in front of the \<open>openid.return_to\<close> parameter,
      whose value is \<open>https://a.example/cb?x=1&y=2\<close>\<close>
  "example_bound_response q =
     ''https://a.example/cb?'' @ q
     @ ''&openid.return_to=https%3A%2F%2Fa.example%2Fcb%3Fx%3D1%26y%3D2''"

definition example_params :: "string \<Rightarrow> string \<Rightarrow> params" where
  \<comment> \<open>the parameters of such a response, with the nonce and claimed identifier decoded\<close>
  "example_params nonce claimed =
     [(''openid.ns'', ''http://specs.openid.net/auth/2.0''),
      (''openid.mode'', ''id_res''),
      (''openid.return_to'', ''https://a.example/cb''),
      (''openid.response_nonce'', nonce),
      (''openid.claimed_id'', claimed),
      (''openid.signed'', ''signed,op_endpoint''),
      (''openid.sig'', ''c2ln'')]"

definition example_URL :: "string \<Rightarrow> params \<Rightarrow> URL" where
  \<comment> \<open>the \<open>URL\<close> object of \<open>https://a.example/cb?q\<close> whose parameters are \<open>ps\<close>\<close>
  "example_URL q ps =
     \<lparr>url = \<lparr>u_scheme = ''https'', u_username = [], u_password = [],
              u_host = Some ''a.example'', u_port = None, u_path = ''/cb'',
              u_query = Some q, u_fragment = None\<rparr>,
      searchParams = ps\<rparr>"

section \<open>Facts about the nonce pattern\<close>

lemma sublist_single: "sublist [x] ys \<longleftrightarrow> x \<in> set ys"
  by (induction ys) (auto simp: sublist_Cons_right)

lemma match_atoms_chars:
  "match_atoms as s \<Longrightarrow> c \<in> set s \<Longrightarrow> is_digit c \<or> Lit c \<in> set as"
  by (induction as s rule: match_atoms.induct) auto

lemma match_atoms_length: "match_atoms as s \<Longrightarrow> length s = length as"
  by (induction as s rule: match_atoms.induct) auto

text \<open>The matched date is never empty and never holds a \<open>.\<close>: the second test of
  \<open>checkNonce\<close> on \<open>nonceDate\<close> cannot fail once the pattern has matched.\<close>

lemma match_nonce_date_shape:
  assumes "match_nonce_date s = Some d"
  shows "d \<noteq> []" and "\<not> str_includes d ''.''"
proof -
  from assms have m: "match_atoms nonce_date_pattern d"
    by (auto simp: match_nonce_date_def split: if_splits)
  then have "length d = 20"
    by (simp add: match_atoms_length nonce_date_pattern_def)
  then show "d \<noteq> []" by auto
  have "CHR ''.'' \<notin> set d"
  proof
    assume "CHR ''.'' \<in> set d"
    with m have "is_digit CHR ''.'' \<or> Lit CHR ''.'' \<in> set nonce_date_pattern"
      by (rule match_atoms_chars)
    then show False
      by (simp add: is_digit_def nonce_date_pattern_def)
  qed
  then show "\<not> str_includes d ''.''"
    by (simp add: str_includes_def sublist_single)
qed

text \<open>\<open>checkNonce\<close> from the sweep on, for a 2.0 response whose nonce has a date that parses.\<close>

lemma checkNonce_past_parsing:
  assumes "\<not> openid1_only ps"
      and "params_get ps ''openid.response_nonce'' = Some n" and "n \<noteq> []"
      and "match_nonce_date (trim n) = Some d" and "date_parse P d = Some ts"
  shows "checkNonce P now c ps =
           (let c1 = removeOldNonces now c in
            if \<bar>now (length (nonces c)) - ts\<bar> > 300000 then (Inl NonceSkewTooLarge, c1)
            else if stored c1 n then (Inl NonceReplayed, c1)
            else (Inr (), c1\<lparr>nonces := nonces c1 @ [(n, ts)]\<rparr>))"
  using assms match_nonce_date_shape[OF assms(4)]
  by (simp add: checkNonce_def truthy_def FIVE_MINUTES_IN_MS_def Let_def)

section \<open>Facts about the nonce store\<close>

lemma sweep_entries:
  "(n, t) \<in> set (sweep now k es)
     \<longleftrightarrow> (\<exists>i < length es. es ! i = (n, t) \<and> \<bar>now (k + i) - t\<bar> \<le> 300000)"
proof (induction es arbitrary: k)
  case Nil
  then show ?case by simp
next
  case (Cons e es)
  obtain m u where e: "e = (m, u)" by (cases e)
  have split: "(\<exists>i < length (e # es). (e # es) ! i = (n, t) \<and> \<bar>now (k + i) - t\<bar> \<le> 300000)
        \<longleftrightarrow> (e = (n, t) \<and> \<bar>now k - t\<bar> \<le> 300000)
            \<or> (\<exists>i < length es. es ! i = (n, t) \<and> \<bar>now (Suc k + i) - t\<bar> \<le> 300000)"
    (is "?L \<longleftrightarrow> ?A \<or> ?B")
  proof
    assume ?L
    then obtain i where i: "i < length (e # es)" "(e # es) ! i = (n, t)"
      "\<bar>now (k + i) - t\<bar> \<le> 300000" by blast
    show "?A \<or> ?B"
    proof (cases i)
      case 0
      with i show ?thesis by simp
    next
      case (Suc j)
      with i have "j < length es" "es ! j = (n, t)" "\<bar>now (Suc k + j) - t\<bar> \<le> 300000"
        by simp_all
      then show ?thesis by blast
    qed
  next
    assume "?A \<or> ?B"
    then show ?L
    proof
      assume ?A
      then have "0 < length (e # es) \<and> (e # es) ! 0 = (n, t) \<and> \<bar>now (k + 0) - t\<bar> \<le> 300000"
        by simp
      then show ?L by blast
    next
      assume ?B
      then obtain j where "j < length es" "es ! j = (n, t)" "\<bar>now (Suc k + j) - t\<bar> \<le> 300000"
        by blast
      then have "Suc j < length (e # es) \<and> (e # es) ! Suc j = (n, t)
                 \<and> \<bar>now (k + Suc j) - t\<bar> \<le> 300000"
        by simp
      then show ?L by blast
    qed
  qed
  show ?case
    unfolding split using Cons.IH[of "Suc k"] e
    by (auto simp: FIVE_MINUTES_IN_MS_def)
qed

lemma sweep_subset: "set (sweep now k es) \<subseteq> set es"
proof (induction es arbitrary: k)
  case Nil
  then show ?case by simp
next
  case (Cons e es)
  obtain m u where "e = (m, u)" by (cases e)
  with Cons.IH[of "Suc k"] show ?case by auto
qed

lemma sweep_append:
  "sweep now k (xs @ ys) = sweep now k xs @ sweep now (k + length xs) ys"
  by (induction xs arbitrary: k) auto

lemma removeOldNonces_entries:
  "(n, t) \<in> set (nonces (removeOldNonces now c))
     \<longleftrightarrow> (\<exists>i < length (nonces c). nonces c ! i = (n, t) \<and> \<bar>now i - t\<bar> \<le> 300000)"
  using sweep_entries[of n t now 0 "nonces c"] by (simp add: removeOldNonces_def)

lemma removeOldNonces_stored: "stored (removeOldNonces now c) n \<Longrightarrow> stored c n"
  using sweep_subset[of now 0 "nonces c"] by (auto simp: stored_def removeOldNonces_def)

lemma checkNonce_accepts:
  assumes "\<not> openid1_only ps" and "checkNonce P now c ps = (Inr (), c')"
  shows "\<exists>n d ts. params_get ps ''openid.response_nonce'' = Some n \<and> n \<noteq> []
           \<and> match_nonce_date (trim n) = Some d \<and> date_parse P d = Some ts
           \<and> \<bar>now (length (nonces c)) - ts\<bar> \<le> 300000
           \<and> \<not> stored (removeOldNonces now c) n
           \<and> c' = (removeOldNonces now c)
                     \<lparr>nonces := nonces (removeOldNonces now c) @ [(n, ts)]\<rparr>"
  using assms
  by (auto simp: checkNonce_def Let_def truthy_def FIVE_MINUTES_IN_MS_def
           split: if_splits option.splits)

lemma checkNonce_store:
  assumes "(n, t) \<in> set (nonces (snd (checkNonce P now c ps)))"
  shows "(n, t) \<in> set (nonces c)
         \<or> (\<exists>d. match_nonce_date (trim n) = Some d \<and> date_parse P d = Some t)"
  using assms sweep_subset[of now 0 "nonces c"]
  by (auto simp: checkNonce_def Let_def truthy_def removeOldNonces_def
           split: if_splits option.splits)

lemma validateResponse_store:
  "snd (validateResponse P now c responseUrl returnUrl) = c
   \<or> (\<exists>ps. snd (validateResponse P now c responseUrl returnUrl) = snd (checkNonce P now c ps))"
  by (auto simp: validateResponse_def Let_def split: option.splits sum.splits prod.splits)
     (metis snd_conv)+

lemma reachable_timestamps:
  assumes "reachable P c" and "(n, t) \<in> set (nonces c)"
  shows "\<exists>d. match_nonce_date (trim n) = Some d \<and> date_parse P d = Some t"
  using assms
proof (induction arbitrary: n t rule: reachable.induct)
  case reachable_new
  then show ?case by (simp add: new_client_def)
next
  case (reachable_validate c now responseUrl returnUrl)
  from validateResponse_store[of P now c responseUrl returnUrl]
  show ?case
  proof
    assume "snd (validateResponse P now c responseUrl returnUrl) = c"
    with reachable_validate show ?thesis by simp
  next
    assume "\<exists>ps. snd (validateResponse P now c responseUrl returnUrl)
                    = snd (checkNonce P now c ps)"
    then obtain ps where "snd (validateResponse P now c responseUrl returnUrl)
                    = snd (checkNonce P now c ps)" ..
    with reachable_validate.prems have "(n, t) \<in> set (nonces (snd (checkNonce P now c ps)))"
      by simp
    from checkNonce_store[OF this] reachable_validate.IH show ?thesis by blast
  qed
qed

text \<open>Every entry that \<open>checkNonce\<close> leaves, once it has swept, was within the window at one
  of the reads of the call: at the read of its own test in the sweep, or, for the entry
  that the call adds, at the read of the skew check.\<close>

lemma checkNonce_store_fresh:
  assumes "\<not> openid1_only ps"
      and "fst (checkNonce P now c ps) \<in> {Inr (), Inl NonceSkewTooLarge, Inl NonceReplayed}"
      and "(n, t) \<in> set (nonces (snd (checkNonce P now c ps)))"
  shows "\<exists>k \<le> length (nonces c). \<bar>now k - t\<bar> \<le> 300000"
proof -
  have swept: "\<exists>k \<le> length (nonces c). \<bar>now k - t\<bar> \<le> 300000"
    if "(n, t) \<in> set (nonces (removeOldNonces now c))"
    using that unfolding removeOldNonces_entries by (meson less_imp_le_nat)
  from assms(1,2) consider
      (early) "snd (checkNonce P now c ps) = removeOldNonces now c"
    | (added) ts where "nonces (snd (checkNonce P now c ps))
                          = nonces (removeOldNonces now c) @ [(the (params_get ps ''openid.response_nonce''), ts)]"
                       "\<bar>now (length (nonces c)) - ts\<bar> \<le> 300000"
    by (auto simp: checkNonce_def Let_def truthy_def FIVE_MINUTES_IN_MS_def
             split: if_splits option.splits)
  then show ?thesis
  proof cases
    case early
    with assms(3) swept show ?thesis by simp
  next
    case added
    with assms(3) have "(n, t) \<in> set (nonces (removeOldNonces now c)) \<or> t = ts"
      by auto
    with swept added(2) show ?thesis by blast
  qed
qed

lemma discover_update_irrelevant:
  "new_URL (P\<lparr>discover := d\<rparr>) = new_URL P"
  "checkReturnUrlsAreValid (P\<lparr>discover := d\<rparr>) = checkReturnUrlsAreValid P"
  "checkNonce (P\<lparr>discover := d\<rparr>) = checkNonce P"
  by (simp_all add: fun_eq_iff new_URL_def checkReturnUrlsAreValid_def parseURL_def
                   checkNonce_def Let_def cong: option.case_cong if_cong)

lemma validateResponse_success:
  assumes "validateResponse P now c responseUrl returnUrl = (Inr pr, c')"
      and "new_URL P (trim responseUrl) = Some U"
  shows "checkReturnUrlsAreValid P U returnUrl = Inr ()"
    and "checkParams (Some (searchParams U)) = Inr ()"
    and "checkNonce P now c (searchParams U) = (Inr (), c')"
    and "verifyDiscoveredInformation P (searchParams U) = Inr pr"
  using assms
  by (auto simp: validateResponse_def Let_def split: sum.splits prod.splits)

section \<open>Facts about the claimed identifier\<close>

lemma indexOf_takeWhile:
  "indexOf s c = (if c \<in> set s then int (length (takeWhile (\<lambda>x. x \<noteq> c) s)) else -1)"
  by (induction s) (auto simp: Let_def)

lemma getCanonicalClaimedIdentifier_takeWhile:
  "getCanonicalClaimedIdentifier v = takeWhile (\<lambda>x. x \<noteq> CHR ''#'') v"
proof (cases "CHR ''#'' \<in> set v")
  case True
  then show ?thesis
    by (simp add: getCanonicalClaimedIdentifier_def indexOf_takeWhile slice0_def
                  takeWhile_eq_take[symmetric])
next
  case False
  then have tw: "takeWhile (\<lambda>x. x \<noteq> CHR ''#'') v = v"
    by (auto simp: takeWhile_eq_all_conv)
  from False have "getCanonicalClaimedIdentifier v = v"
    by (simp add: getCanonicalClaimedIdentifier_def indexOf_takeWhile)
  with tw show ?thesis by (simp only:)
qed

section \<open>Facts about queries\<close>

lemma sublist_transitive:
  assumes "sublist xs ys" and "sublist ys zs"
  shows "sublist xs zs"
proof -
  from assms obtain a b a' b' where "ys = a @ xs @ b" and "zs = a' @ ys @ b'"
    by (auto simp: sublist_def)
  then have "zs = (a' @ a) @ xs @ (b @ b')" by simp
  then show ?thesis unfolding sublist_def by blast
qed

lemma split_on_nonempty: "split_on c xs \<noteq> []"
  by (induction xs) (auto split: list.splits)

lemma split_on_hd_prefix: "prefix (hd (split_on c xs)) xs"
  by (induction xs) (auto split: list.splits)

lemma split_on_sublist: "s \<in> set (split_on c xs) \<Longrightarrow> sublist s xs"
proof (induction xs arbitrary: s)
  case Nil
  then show ?case by simp
next
  case (Cons x xs)
  show ?case
  proof (cases "x = c")
    case True
    with Cons.prems have "s = [] \<or> s \<in> set (split_on c xs)" by simp
    with Cons.IH show ?thesis by (auto simp: sublist_Cons_right)
  next
    case False
    obtain h t where ht: "split_on c xs = h # t"
      using split_on_nonempty[of c xs] by (cases "split_on c xs") auto
    with False Cons.prems have "s = x # h \<or> s \<in> set t" by simp
    then show ?thesis
    proof
      assume "s = x # h"
      moreover from split_on_hd_prefix[of c xs] ht have "prefix h xs" by simp
      ultimately have "prefix s (x # xs)" by simp
      then show ?thesis by (rule prefix_imp_sublist)
    next
      assume "s \<in> set t"
      with ht have "s \<in> set (split_on c xs)" by simp
      with Cons.IH have "sublist s xs" .
      then show ?thesis by (simp add: sublist_Cons_right)
    qed
  qed
qed

lemma query_sequences_sublist: "p \<in> set (query_sequences q) \<Longrightarrow> sublist p q"
  by (auto simp: query_sequences_def intro: split_on_sublist)

lemma urlencoded_parse_empty: "urlencoded_parse [] = []"
  by (simp add: urlencoded_parse_def query_sequences_def)

lemma URL_of_search_nonempty:
  assumes "params_get (searchParams (URL_of u)) k = Some v"
  shows "search (URL_of u) \<noteq> []"
proof
  assume "search (URL_of u) = []"
  then have "u_query u = None \<or> u_query u = Some []"
    by (auto simp: search_def URL_of_def split: option.splits if_splits)
  then have "searchParams (URL_of u) = []"
    by (auto simp: URL_of_def urlencoded_parse_empty)
  with assms show False by (simp add: params_get_def)
qed

lemma hex_value_hex_digit: "n < 16 \<Longrightarrow> hex_value (hex_digit n) = Some n"
  by (auto simp: hex_value_def hex_digit_def Let_def)

lemma of_char_hex_digit:
  "n < 16 \<Longrightarrow> (of_char (hex_digit n) :: nat) = (if n < 10 then 48 + n else 55 + n)"
  by (simp add: hex_digit_def)

lemma hex_digit_not:
  assumes "n < 16" and "(of_char c :: nat) < 48 \<or> (57 < (of_char c :: nat) \<and> (of_char c :: nat) < 65)"
  shows "hex_digit n \<noteq> c"
proof
  assume "hex_digit n = c"
  then have "(of_char (hex_digit n) :: nat) = of_char c" by simp
  with assms show False
    by (simp add: of_char_hex_digit split: if_splits)
qed

lemma hex_digit_not_plus: "n < 16 \<Longrightarrow> hex_digit n \<noteq> CHR ''+''"
  by (rule hex_digit_not) simp_all

lemma not_percent_escape: "c \<noteq> CHR ''%'' \<Longrightarrow> \<not> is_percent_escape (c # r)"
  by (simp add: is_percent_escape_def split: list.splits)

lemma percent_escape_iff:
  "is_percent_escape (CHR ''%'' # h1 # h2 # r) \<longleftrightarrow> hex_value h1 \<noteq> None \<and> hex_value h2 \<noteq> None"
  by (simp add: is_percent_escape_def)

lemma plus_to_space_Nil: "plus_to_space [] = []"
  by (simp add: plus_to_space_def)

lemma plus_to_space_Cons:
  "plus_to_space (x # xs) = (if x = CHR ''+'' then CHR '' '' else x) # plus_to_space xs"
  by (simp add: plus_to_space_def)

lemma char_of_nibbles: "char_of (16 * (of_char c div 16) + of_char c mod 16 :: nat) = c"
  by simp

lemma urlencoded_byte_no_separator:
  assumes "x \<in> set (urlencoded_byte c)"
  shows "x \<noteq> CHR ''&'' \<and> x \<noteq> CHR ''=''"
proof -
  have n: "(of_char c :: nat) div 16 < 16" "(of_char c :: nat) mod 16 < 16"
    by (simp_all add: less_mult_imp_div_less)
  have sep: "\<not> urlencoded_unreserved CHR ''&''" "\<not> urlencoded_unreserved CHR ''=''"
    by (simp_all add: urlencoded_unreserved_def)
  consider "c = CHR '' ''" | "c \<noteq> CHR '' ''" "urlencoded_unreserved c"
    | "c \<noteq> CHR '' ''" "\<not> urlencoded_unreserved c"
    by blast
  then show ?thesis
  proof cases
    case 1
    with assms show ?thesis by (simp add: urlencoded_byte_def)
  next
    case 2
    with assms have "x = c" by (simp add: urlencoded_byte_def)
    with 2 sep show ?thesis by auto
  next
    case 3
    with assms have "x = CHR ''%'' \<or> x = hex_digit (of_char c div 16)
                     \<or> x = hex_digit (of_char c mod 16)"
      by (simp add: urlencoded_byte_def)
    moreover have "hex_digit k \<noteq> CHR ''&''" if "k < 16" for k
      by (rule hex_digit_not[OF that]) simp
    moreover have "hex_digit k \<noteq> CHR ''=''" if "k < 16" for k
      by (rule hex_digit_not[OF that]) simp
    ultimately show ?thesis using n by auto
  qed
qed

lemma percent_decode_urlencoded_byte:
  "percent_decode (plus_to_space (urlencoded_byte c) @ r) = c # percent_decode r"
proof -
  have n: "(of_char c :: nat) div 16 < 16" "(of_char c :: nat) mod 16 < 16"
    by (simp_all add: less_mult_imp_div_less)
  consider "c = CHR '' ''" | "c \<noteq> CHR '' ''" "urlencoded_unreserved c"
    | "c \<noteq> CHR '' ''" "\<not> urlencoded_unreserved c"
    by blast
  then show ?thesis
  proof cases
    case 1
    then show ?thesis
      by (simp add: urlencoded_byte_def plus_to_space_Cons plus_to_space_Nil not_percent_escape)
  next
    case 2
    then have "c \<noteq> CHR ''%''" "c \<noteq> CHR ''+''"
      by (auto simp: urlencoded_unreserved_def Let_def)
    with 2 show ?thesis
      by (simp add: urlencoded_byte_def plus_to_space_Cons plus_to_space_Nil not_percent_escape)
  next
    case 3
    with n show ?thesis
      by (simp add: urlencoded_byte_def plus_to_space_Cons plus_to_space_Nil percent_escape_iff
                    hex_value_hex_digit hex_digit_not_plus)
  qed
qed

lemma plus_to_space_append: "plus_to_space (a @ b) = plus_to_space a @ plus_to_space b"
  by (simp add: plus_to_space_def)

lemma percent_decode_urlencoded_string:
  "percent_decode (plus_to_space (urlencoded_string s)) = s"
proof -
  have "percent_decode (plus_to_space (urlencoded_string s) @ r) = s @ percent_decode r" for r
    by (induction s)
       (simp_all add: urlencoded_string_def plus_to_space_append plus_to_space_Nil
                      percent_decode_urlencoded_byte)
  from this[of "[]"] show ?thesis by simp
qed

lemma urlencoded_string_no_separator:
  "x \<in> set (urlencoded_string s) \<Longrightarrow> x \<noteq> CHR ''&'' \<and> x \<noteq> CHR ''=''"
  by (auto simp: urlencoded_string_def dest: urlencoded_byte_no_separator)

lemma urlencoded_parse_pair_serialized:
  "urlencoded_parse_pair (urlencoded_string k @ ''='' @ urlencoded_string v) = (k, v)"
proof -
  have "takeWhile (\<lambda>c. c \<noteq> CHR ''='') (urlencoded_string k @ ''='' @ urlencoded_string v)
          = urlencoded_string k"
    using urlencoded_string_no_separator[of _ k] by (simp add: takeWhile_append2)
  moreover
  have "dropWhile (\<lambda>c. c \<noteq> CHR ''='') (urlencoded_string k @ ''='' @ urlencoded_string v)
          = ''='' @ urlencoded_string v"
    using urlencoded_string_no_separator[of _ k] by (simp add: dropWhile_append2)
  ultimately show ?thesis
    by (simp add: urlencoded_parse_pair_def percent_decode_urlencoded_string)
qed

lemma split_on_no_separator: "c \<notin> set a \<Longrightarrow> split_on c a = [a]"
  by (induction a) auto

lemma split_on_append: "c \<notin> set a \<Longrightarrow> split_on c (a @ c # b) = a # split_on c b"
  by (induction a) auto

lemma query_sequences_serialized:
  "query_sequences (urlencoded_serialize kvs)
     = map (\<lambda>(k, v). urlencoded_string k @ ''='' @ urlencoded_string v) kvs"
proof (induction kvs rule: urlencoded_serialize.induct)
  case 1
  then show ?case by (simp add: query_sequences_def)
next
  case (2 k v)
  have "CHR ''&'' \<notin> set (urlencoded_string k @ ''='' @ urlencoded_string v)"
    using urlencoded_string_no_separator by auto
  then show ?case
    by (simp add: query_sequences_def split_on_no_separator)
next
  case (3 k v kv kvs)
  have "CHR ''&'' \<notin> set (urlencoded_string k @ ''='' @ urlencoded_string v)"
    using urlencoded_string_no_separator by auto
  from split_on_append[OF this, of "urlencoded_serialize (kv # kvs)"] 3 show ?case
    by (simp add: query_sequences_def)
qed

lemma urlencoded_parse_serialize: "urlencoded_parse (urlencoded_serialize kvs) = kvs"
  using urlencoded_parse_pair_serialized
  by (auto simp: urlencoded_parse_def query_sequences_serialized intro!: map_idI)

lemma params_set_fresh: "k \<notin> fst ` set l \<Longrightarrow> params_set l k v = l @ [(k, v)]"
  by (induction l) auto

lemma urlencoded_serialize_nonempty: "kvs \<noteq> [] \<Longrightarrow> urlencoded_serialize kvs \<noteq> []"
  by (induction kvs rule: urlencoded_serialize.induct) auto

lemma fold_searchParams_set:
  assumes "distinct (map fst kvs)" and "fst ` set l \<inter> fst ` set kvs = {}" and "kvs \<noteq> []"
  shows "fold (\<lambda>(key, v) U. searchParams_set U key v) kvs \<lparr>url = w, searchParams = l\<rparr>
           = \<lparr>url = w\<lparr>u_query := Some (urlencoded_serialize (l @ kvs))\<rparr>,
              searchParams = l @ kvs\<rparr>"
  using assms
proof (induction kvs arbitrary: l w)
  case Nil
  then show ?case by simp
next
  case (Cons kv kvs)
  obtain k v where kv: "kv = (k, v)" by (cases kv)
  from Cons.prems kv have fresh: "k \<notin> fst ` set l" by auto
  let ?l = "l @ [(k, v)]"
  let ?w = "w\<lparr>u_query := Some (urlencoded_serialize ?l)\<rparr>"
  have step: "searchParams_set \<lparr>url = w, searchParams = l\<rparr> k v = \<lparr>url = ?w, searchParams = ?l\<rparr>"
    by (simp add: searchParams_set_def params_set_fresh[OF fresh] Let_def
                  urlencoded_serialize_nonempty)
  show ?case
  proof (cases "kvs = []")
    case True
    with kv step show ?thesis by simp
  next
    case False
    from Cons.prems kv have "distinct (map fst kvs)" "fst ` set ?l \<inter> fst ` set kvs = {}"
      by auto
    from Cons.IH[OF this False, of ?w] kv step show ?thesis by simp
  qed
qed

lemma toString_with_query:
  "toString \<lparr>url = u\<lparr>u_query := Some q\<rparr>, searchParams = l\<rparr>
     = toString (URL_of (u\<lparr>u_query := None, u_fragment := None\<rparr>)) @ ''?'' @ q
       @ (case u_fragment u of None \<Rightarrow> [] | Some f \<Rightarrow> ''#'' @ f)"
  by (simp add: toString_def URL_of_def Let_def split: option.splits)

lemma toString_nonempty: "toString U \<noteq> []"
  by (simp add: toString_def Let_def)

lemma auth_params_encoded:
  "urlencoded_string ''openid.mode'' = ''openid.mode''"
  "urlencoded_string ''checkid_setup'' = ''checkid_setup''"
  "urlencoded_string ''openid.ns'' = ''openid.ns''"
  "urlencoded_string ''http://specs.openid.net/auth/2.0''
     = ''http%3A%2F%2Fspecs.openid.net%2Fauth%2F2.0''"
  "urlencoded_string ''openid.claimed_id'' = ''openid.claimed_id''"
  "urlencoded_string ''http://specs.openid.net/auth/2.0/identifier_select''
     = ''http%3A%2F%2Fspecs.openid.net%2Fauth%2F2.0%2Fidentifier_select''"
  "urlencoded_string ''openid.identity'' = ''openid.identity''"
  "urlencoded_string ''openid.return_to'' = ''openid.return_to''"
  by code_simp+

section \<open>The example responses, evaluated\<close>

lemma validateResponse_stages:
  assumes "new_URL P (trim responseUrl) = Some U"
      and "searchParams U = ps"
      and "checkReturnUrlsAreValid P U returnUrl = Inr ()"
      and "checkParams (Some ps) = Inr ()"
  shows "validateResponse P now c responseUrl returnUrl =
           (case checkNonce P now c ps of
              (Inl e, c') \<Rightarrow> (Inl e, c')
            | (Inr _, c') \<Rightarrow> (verifyDiscoveredInformation P ps, c'))"
  using assms by (simp add: validateResponse_def Let_def)

lemma example_parse_abc:
  "new_URL example_platform
     (trim (example_response ''2024-01-01T00%3A00%3A00Zabc'' example_claimed))
   = Some (example_URL (example_query ''2024-01-01T00%3A00%3A00Zabc'' example_claimed)
             (example_params ''2024-01-01T00:00:00Zabc''
                ''https://steamcommunity.com/openid/id/76561198000000000#frag''))"
  by code_simp

lemma example_parse_abc_space:
  "new_URL example_platform
     (trim (example_response ''2024-01-01T00%3A00%3A00Zabc%20'' example_claimed))
   = Some (example_URL (example_query ''2024-01-01T00%3A00%3A00Zabc%20'' example_claimed)
             (example_params ''2024-01-01T00:00:00Zabc ''
                ''https://steamcommunity.com/openid/id/76561198000000000#frag''))"
  by code_simp

lemma example_parse_xyz:
  "new_URL example_platform
     (trim (example_response ''2024-01-01T00%3A05%3A00Zxyz'' example_claimed))
   = Some (example_URL (example_query ''2024-01-01T00%3A05%3A00Zxyz'' example_claimed)
             (example_params ''2024-01-01T00:05:00Zxyz''
                ''https://steamcommunity.com/openid/id/76561198000000000#frag''))"
  by code_simp

lemma example_return_url:
  "parseURL example_platform ''https://a.example/cb'' = Some (URL_of
     \<lparr>u_scheme = ''https'', u_username = [], u_password = [],
              u_host = Some ''a.example'', u_port = None, u_path = ''/cb'',
              u_query = None, u_fragment = None\<rparr>)"
  by code_simp

lemma example_binding:
  "checkReturnUrlsAreValid example_platform (example_URL q (example_params n v))
     ''https://a.example/cb'' = Inr ()"
  by (simp add: checkReturnUrlsAreValid_def example_URL_def example_params_def params_get_def
                truthy_def example_return_url protocol_def host_def pathname_def search_def
                URL_of_def)

lemma example_checkParams: "checkParams (Some (example_params n v)) = Inr ()"
  by (simp add: checkParams_def example_params_def params_get_def)

lemma example_validateResponse:
  assumes "new_URL example_platform (trim r) = Some (example_URL q (example_params n v))"
  shows "validateResponse example_platform now c r ''https://a.example/cb''
   = (case checkNonce example_platform now c (example_params n v) of
              (Inl e, c') \<Rightarrow> (Inl e, c')
            | (Inr _, c') \<Rightarrow> (verifyDiscoveredInformation example_platform (example_params n v), c'))"
proof -
  have "searchParams (example_URL q (example_params n v)) = example_params n v"
    by (simp add: example_URL_def)
  from validateResponse_stages[OF assms this example_binding example_checkParams]
  show ?thesis .
qed

lemma example_discover_frag:
  "discover example_platform
     (getCanonicalClaimedIdentifier ''https://steamcommunity.com/openid/id/76561198000000000#frag'')
   = Inr (Some [steam_provider])"
  by code_simp

lemma example_verify:
  "verifyDiscoveredInformation example_platform
     (example_params n ''https://steamcommunity.com/openid/id/76561198000000000#frag'')
   = Inr \<lparr>authenticated = Some True,
          claimedIdentifier = Some ''https://steamcommunity.com/openid/id/76561198000000000#frag''\<rparr>"
  by (simp add: verifyDiscoveredInformation_def example_params_def params_get_def truthy_def
                Let_def example_discover_frag)

lemma example_nonce_abc:
  "match_nonce_date (trim ''2024-01-01T00:00:00Zabc'') = Some ''2024-01-01T00:00:00Z''"
  "match_nonce_date (trim ''2024-01-01T00:00:00Zabc '') = Some ''2024-01-01T00:00:00Z''"
  "date_parse example_platform ''2024-01-01T00:00:00Z'' = Some 1704067200000"
  by code_simp+

lemma example_nonce_xyz:
  "match_nonce_date (trim ''2024-01-01T00:05:00Zxyz'') = Some ''2024-01-01T00:05:00Z''"
  "date_parse example_platform ''2024-01-01T00:05:00Z'' = Some 1704067500000"
  by code_simp+

lemma example_v2: "\<not> openid1_only (example_params n v)"
proof -
  have "\<not> openid1_only (example_params [] [])" by code_simp
  then show ?thesis by (simp add: openid1_only_def example_params_def params_get_def params_has_def)
qed

lemma example_call:
  assumes "new_URL example_platform (trim r)
             = Some (example_URL q (example_params n
                 ''https://steamcommunity.com/openid/id/76561198000000000#frag''))"
      and "n \<noteq> []" and "match_nonce_date (trim n) = Some d"
      and "date_parse example_platform d = Some ts"
  shows "validateResponse example_platform now c r ''https://a.example/cb'' =
           (let c1 = removeOldNonces now c in
            if \<bar>now (length (nonces c)) - ts\<bar> > 300000 then (Inl NonceSkewTooLarge, c1)
            else if stored c1 n then (Inl NonceReplayed, c1)
            else (Inr \<lparr>authenticated = Some True,
                       claimedIdentifier =
                         Some ''https://steamcommunity.com/openid/id/76561198000000000#frag''\<rparr>,
                  c1\<lparr>nonces := nonces c1 @ [(n, ts)]\<rparr>))"
proof -
  have "params_get (example_params n
          ''https://steamcommunity.com/openid/id/76561198000000000#frag'')
          ''openid.response_nonce'' = Some n"
    by (simp add: example_params_def params_get_def)
  from checkNonce_past_parsing[OF example_v2 this assms(2,3,4)]
  show ?thesis
    by (simp add: example_validateResponse[OF assms(1)] example_verify Let_def)
qed

lemma example_first_call:
  "validateResponse example_platform (readings [1704067201000]) new_client
     (example_response ''2024-01-01T00%3A00%3A00Zabc'' example_claimed) ''https://a.example/cb''
   = (Inr \<lparr>authenticated = Some True,
            claimedIdentifier =
              Some ''https://steamcommunity.com/openid/id/76561198000000000#frag''\<rparr>,
      \<lparr>nonces = [(''2024-01-01T00:00:00Zabc'', 1704067200000)]\<rparr>)"
  by (simp add: example_call[OF example_parse_abc _ example_nonce_abc(1,3)] Let_def
                removeOldNonces_def new_client_def stored_def readings_def)

text \<open>
  Why the clock must not run backwards for a replay to be refused: a response accepted
  when the clock shows 1704066900000, five minutes before the time in its nonce, is
  accepted again when the clock is then set back by a millisecond while the store is swept
  (the entry is 300001 ms away and is deleted) and shows 1704066900000 again at the skew
  check.
\<close>

lemma example_clock_set_back:
  "validateResponse example_platform (readings [1704066900000]) new_client
     (example_response ''2024-01-01T00%3A00%3A00Zabc'' example_claimed) ''https://a.example/cb''
   = (Inr \<lparr>authenticated = Some True,
            claimedIdentifier =
              Some ''https://steamcommunity.com/openid/id/76561198000000000#frag''\<rparr>,
      \<lparr>nonces = [(''2024-01-01T00:00:00Zabc'', 1704067200000)]\<rparr>)"
  "validateResponse example_platform (readings [1704066899999, 1704066900000])
     \<lparr>nonces = [(''2024-01-01T00:00:00Zabc'', 1704067200000)]\<rparr>
     (example_response ''2024-01-01T00%3A00%3A00Zabc'' example_claimed) ''https://a.example/cb''
   = (Inr \<lparr>authenticated = Some True,
            claimedIdentifier =
              Some ''https://steamcommunity.com/openid/id/76561198000000000#frag''\<rparr>,
      \<lparr>nonces = [(''2024-01-01T00:00:00Zabc'', 1704067200000)]\<rparr>)"
  by (simp_all add: example_call[OF example_parse_abc _ example_nonce_abc(1,3)] Let_def
                    removeOldNonces_def new_client_def stored_def readings_def
                    FIVE_MINUTES_IN_MS_def)

section \<open>The claims\<close>

text \<open>
  C1, as the code has it. Take a 2.0 response whose nonce \<open>n\<close> carries the time value
  \<open>ts\<close>, and a call that succeeds on it: the nonce is then stored with \<open>ts\<close>, which was
  within 300000 ms of the clock at the skew check of that call. A second call with the same
  response URL and \<open>returnUrl\<close>, whatever discovery answers then, fails, provided the clock
  has not run backwards since that skew check: with \<open>NonceReplayed\<close> while \<open>ts\<close> is still
  within 300000 ms of the clock at the skew check of the second call, and with
  \<open>NonceSkewTooLarge\<close> once it is not. It leaves the swept store.
\<close>

theorem C1_second_call_fails:
  assumes first: "validateResponse P now1 c responseUrl returnUrl = (Inr pr, c1)"
      and U: "new_URL P (trim responseUrl) = Some U"
      and v2: "\<not> openid1_only (searchParams U)"
      and n: "params_get (searchParams U) ''openid.response_nonce'' = Some n"
      and d: "match_nonce_date (trim n) = Some d" "date_parse P d = Some ts"
      and later: "now1 (length (nonces c)) \<le> now2 0"
      and mono: "\<forall>j k. j \<le> k \<longrightarrow> now2 j \<le> now2 k"
  shows "(n, ts) \<in> set (nonces c1)
       \<and> \<bar>now1 (length (nonces c)) - ts\<bar> \<le> 300000
       \<and> validateResponse (P\<lparr>discover := d2\<rparr>) now2 c1 responseUrl returnUrl
           = (Inl (if \<bar>now2 (length (nonces c1)) - ts\<bar> > 300000
                   then NonceSkewTooLarge else NonceReplayed),
              removeOldNonces now2 c1)"
proof -
  let ?ps = "searchParams U"
  let ?swept = "nonces (removeOldNonces now1 c)"
  note s = validateResponse_success[OF first U]
  from checkNonce_accepts[OF v2 s(3)] n d have
    ne: "n \<noteq> []"
    and fresh: "\<bar>now1 (length (nonces c)) - ts\<bar> \<le> 300000"
    and new: "\<not> stored (removeOldNonces now1 c) n"
    and c1: "c1 = (removeOldNonces now1 c)\<lparr>nonces := ?swept @ [(n, ts)]\<rparr>"
    by auto
  from c1 have store: "nonces c1 = ?swept @ [(n, ts)]" by simp
  then have len: "length (nonces c1) = Suc (length ?swept)" by simp
  have kept: "stored (removeOldNonces now2 c1) n
                \<longleftrightarrow> \<bar>now2 (length ?swept) - ts\<bar> \<le> 300000"
  proof -
    have "n \<notin> fst ` set (sweep now2 0 ?swept)"
      using new sweep_subset[of now2 0 ?swept] by (auto simp: stored_def)
    then show ?thesis
      by (auto simp: stored_def removeOldNonces_def store sweep_append FIVE_MINUTES_IN_MS_def)
  qed
  from mono later have "now1 (length (nonces c)) \<le> now2 (length ?swept)"
    by (meson le0 order_trans)
  moreover from mono have "now2 (length ?swept) \<le> now2 (length (nonces c1))"
    by (simp add: len)
  ultimately have replay:
    "stored (removeOldNonces now2 c1) n" if "\<bar>now2 (length (nonces c1)) - ts\<bar> \<le> 300000"
    using that fresh unfolding kept by linarith
  have second: "checkNonce P now2 c1 ?ps =
          (Inl (if \<bar>now2 (length (nonces c1)) - ts\<bar> > 300000
                then NonceSkewTooLarge else NonceReplayed),
           removeOldNonces now2 c1)"
    using replay by (auto simp: checkNonce_past_parsing[OF v2 n ne d] Let_def)
  have "validateResponse (P\<lparr>discover := d2\<rparr>) now2 c1 responseUrl returnUrl
          = (Inl (if \<bar>now2 (length (nonces c1)) - ts\<bar> > 300000
                  then NonceSkewTooLarge else NonceReplayed),
             removeOldNonces now2 c1)"
    using U s(1,2) second
    by (simp add: validateResponse_def discover_update_irrelevant Let_def)
  with store fresh show ?thesis by simp
qed

theorem C1_second_call_fails_witness:
  "fst (validateResponse example_platform (readings [1704067201000]) new_client
          (example_response ''2024-01-01T00%3A00%3A00Zabc'' example_claimed)
          ''https://a.example/cb'')
     = Inr \<lparr>authenticated = Some True,
            claimedIdentifier =
              Some ''https://steamcommunity.com/openid/id/76561198000000000#frag''\<rparr>
   \<and> fst (validateResponse example_platform (readings [1704067260000, 1704067260001])
          (snd (validateResponse example_platform (readings [1704067201000]) new_client
                  (example_response ''2024-01-01T00%3A00%3A00Zabc'' example_claimed)
                  ''https://a.example/cb''))
          (example_response ''2024-01-01T00%3A00%3A00Zabc'' example_claimed)
          ''https://a.example/cb'')
     = Inl NonceReplayed"
proof -
  let ?r = "example_response ''2024-01-01T00%3A00%3A00Zabc'' example_claimed"
  let ?v = "''https://steamcommunity.com/openid/id/76561198000000000#frag''"
  let ?ps = "example_params ''2024-01-01T00:00:00Zabc'' ?v"
  let ?U = "example_URL (example_query ''2024-01-01T00%3A00%3A00Zabc'' example_claimed) ?ps"
  let ?c1 = "\<lparr>nonces = [(''2024-01-01T00:00:00Zabc'', 1704067200000)]\<rparr>"
  have sp: "searchParams ?U = ?ps"
    by (simp add: example_URL_def)
  have h3: "\<not> openid1_only (searchParams ?U)"
    unfolding sp by (rule example_v2)
  have h4: "params_get (searchParams ?U) ''openid.response_nonce''
              = Some ''2024-01-01T00:00:00Zabc''"
    unfolding sp by (simp add: example_params_def params_get_def)
  have later: "readings [1704067201000] (length (nonces new_client))
                 \<le> readings [1704067260000, 1704067260001] 0"
    by (simp add: readings_def new_client_def)
  have mono: "\<forall>j k. j \<le> k
                \<longrightarrow> readings [1704067260000, 1704067260001] j
                    \<le> readings [1704067260000, 1704067260001] k"
    by (auto simp: readings_def less_Suc_eq)
  have p: "example_platform\<lparr>discover := discover example_platform\<rparr> = example_platform"
    by simp
  have skew_read: "readings [1704067260000, 1704067260001] (Suc 0) = 1704067260001"
    by (simp add: readings_def)
  from C1_second_call_fails[OF example_first_call example_parse_abc h3 h4
         example_nonce_abc(1,3) later mono, of "discover example_platform"]
  have "fst (validateResponse example_platform (readings [1704067260000, 1704067260001]) ?c1 ?r
               ''https://a.example/cb'') = Inl NonceReplayed"
    unfolding p by (simp add: skew_read)
  then show ?thesis by (simp add: example_first_call)
qed

text \<open>
  C1 as stated fails when the second call comes more than five minutes after the time in
  the nonce: the sweep has removed the nonce, and the call fails with \<open>NonceSkewTooLarge\<close>,
  not with \<open>NonceReplayed\<close>.
\<close>

theorem C1_counterexample:
  "fst (validateResponse example_platform (readings [1704067201000]) new_client
          (example_response ''2024-01-01T00%3A00%3A00Zabc'' example_claimed)
          ''https://a.example/cb'')
     = Inr \<lparr>authenticated = Some True,
            claimedIdentifier =
              Some ''https://steamcommunity.com/openid/id/76561198000000000#frag''\<rparr>
   \<and> fst (validateResponse example_platform (readings [1704067800000])
          (snd (validateResponse example_platform (readings [1704067201000]) new_client
                  (example_response ''2024-01-01T00%3A00%3A00Zabc'' example_claimed)
                  ''https://a.example/cb''))
          (example_response ''2024-01-01T00%3A00%3A00Zabc'' example_claimed)
          ''https://a.example/cb'')
     = Inl NonceSkewTooLarge
   \<and> Inl NonceSkewTooLarge \<noteq> (Inl NonceReplayed :: error + ProviderResponse)"
  by (simp add: example_first_call
                example_call[OF example_parse_abc _ example_nonce_abc(1,3)] Let_def
                readings_def)

text \<open>
  C2, as the code has it. In every client that calls of \<open>validateResponse\<close> can leave, each
  entry of the nonce store maps a nonce to the time value parsed from the date at the head
  of the (trimmed) nonce. The sweep tests each entry against a read of the clock of its
  own and keeps exactly the entries whose time value is within 300000 ms of that read, in
  either direction. It runs before the skew check, the replay check and the insertion: a
  call that fails with \<open>NonceSkewTooLarge\<close> or \<open>NonceReplayed\<close> leaves the swept store. So
  whenever \<open>checkNonce\<close> on a 2.0 response gets as far as these checks, each entry of the
  store it leaves (the swept store in which the nonce was looked up, with the new entry when
  it accepts) was within 300000 ms of the clock at one of the reads of the call; and when
  the reads of the call are no more than \<open>\<delta>\<close> away from the read of the skew check, each
  entry is within \<open>300000 + \<delta>\<close> ms of that read: within the window itself when the clock
  did not move during the call.
\<close>

theorem C2_nonce_store_invariant:
  assumes "reachable P c"
  shows "(\<forall>n t. (n, t) \<in> set (nonces c) \<longrightarrow>
            (\<exists>d. match_nonce_date (trim n) = Some d \<and> date_parse P d = Some t))
       \<and> (\<forall>now n t. (n, t) \<in> set (nonces (removeOldNonces now c))
            \<longleftrightarrow> (\<exists>i < length (nonces c). nonces c ! i = (n, t) \<and> \<bar>now i - t\<bar> \<le> 300000))
       \<and> (\<forall>now ps.
            fst (checkNonce P now c ps) \<in> {Inl NonceSkewTooLarge, Inl NonceReplayed}
            \<longrightarrow> snd (checkNonce P now c ps) = removeOldNonces now c)
       \<and> (\<forall>now ps n t.
            \<not> openid1_only ps
            \<longrightarrow> fst (checkNonce P now c ps) \<in> {Inr (), Inl NonceSkewTooLarge, Inl NonceReplayed}
            \<longrightarrow> (n, t) \<in> set (nonces (snd (checkNonce P now c ps)))
            \<longrightarrow> (\<exists>k \<le> length (nonces c). \<bar>now k - t\<bar> \<le> 300000))
       \<and> (\<forall>now ps n t \<delta>.
            \<not> openid1_only ps
            \<longrightarrow> fst (checkNonce P now c ps) \<in> {Inr (), Inl NonceSkewTooLarge, Inl NonceReplayed}
            \<longrightarrow> (n, t) \<in> set (nonces (snd (checkNonce P now c ps)))
            \<longrightarrow> (\<forall>k \<le> length (nonces c). \<bar>now k - now (length (nonces c))\<bar> \<le> \<delta>)
            \<longrightarrow> \<bar>now (length (nonces c)) - t\<bar> \<le> 300000 + \<delta>)"
proof -
  have swept_first: "snd (checkNonce P now c ps) = removeOldNonces now c"
    if "fst (checkNonce P now c ps) \<in> {Inl NonceSkewTooLarge, Inl NonceReplayed}" for now ps
    using that
    by (auto simp: checkNonce_def Let_def split: if_splits option.splits)
  have drift: "\<bar>now (length (nonces c)) - t\<bar> \<le> 300000 + \<delta>"
    if "\<not> openid1_only ps"
      and "fst (checkNonce P now c ps) \<in> {Inr (), Inl NonceSkewTooLarge, Inl NonceReplayed}"
      and "(n, t) \<in> set (nonces (snd (checkNonce P now c ps)))"
      and near: "\<forall>k \<le> length (nonces c). \<bar>now k - now (length (nonces c))\<bar> \<le> \<delta>"
    for now ps n t \<delta>
  proof -
    from checkNonce_store_fresh[OF that(1,2,3)] obtain k where
      k: "k \<le> length (nonces c)" "\<bar>now k - t\<bar> \<le> 300000" by blast
    with near have "\<bar>now k - now (length (nonces c))\<bar> \<le> \<delta>" by blast
    with k(2) show ?thesis by linarith
  qed
  show ?thesis
  proof (intro conjI allI impI)
    fix n t
    assume "(n, t) \<in> set (nonces c)"
    with assms show "\<exists>d. match_nonce_date (trim n) = Some d \<and> date_parse P d = Some t"
      by (rule reachable_timestamps)
  next
    fix now n t
    show "(n, t) \<in> set (nonces (removeOldNonces now c))
            \<longleftrightarrow> (\<exists>i < length (nonces c). nonces c ! i = (n, t) \<and> \<bar>now i - t\<bar> \<le> 300000)"
      by (rule removeOldNonces_entries)
  next
    fix now ps
    assume "fst (checkNonce P now c ps) \<in> {Inl NonceSkewTooLarge, Inl NonceReplayed}"
    then show "snd (checkNonce P now c ps) = removeOldNonces now c"
      by (rule swept_first)
  next
    fix now ps n t
    assume "\<not> openid1_only ps"
      and "fst (checkNonce P now c ps) \<in> {Inr (), Inl NonceSkewTooLarge, Inl NonceReplayed}"
      and "(n, t) \<in> set (nonces (snd (checkNonce P now c ps)))"
    then show "\<exists>k \<le> length (nonces c). \<bar>now k - t\<bar> \<le> 300000"
      by (rule checkNonce_store_fresh)
  next
    fix now ps n t \<delta>
    assume "\<not> openid1_only ps"
      and "fst (checkNonce P now c ps) \<in> {Inr (), Inl NonceSkewTooLarge, Inl NonceReplayed}"
      and "(n, t) \<in> set (nonces (snd (checkNonce P now c ps)))"
      and "\<forall>k \<le> length (nonces c). \<bar>now k - now (length (nonces c))\<bar> \<le> \<delta>"
    then show "\<bar>now (length (nonces c)) - t\<bar> \<le> 300000 + \<delta>"
      by (rule drift)
  qed
qed

theorem C2_nonce_store_invariant_witness:
  "reachable example_platform
     (snd (validateResponse example_platform (readings [1704067201000]) new_client
        (example_response ''2024-01-01T00%3A00%3A00Zabc'' example_claimed)
        ''https://a.example/cb''))
   \<and> nonces (snd (validateResponse example_platform (readings [1704067201000]) new_client
        (example_response ''2024-01-01T00%3A00%3A00Zabc'' example_claimed)
        ''https://a.example/cb'')) = [(''2024-01-01T00:00:00Zabc'', 1704067200000)]
   \<and> (\<exists>d. match_nonce_date (trim ''2024-01-01T00:00:00Zabc'') = Some d
          \<and> date_parse example_platform d = Some 1704067200000)
   \<and> (''2024-01-01T00:00:00Zabc'', 1704067200000)
        \<in> set (nonces (removeOldNonces (readings [1704067500000])
             (snd (validateResponse example_platform (readings [1704067201000]) new_client
                (example_response ''2024-01-01T00%3A00%3A00Zabc'' example_claimed)
                ''https://a.example/cb''))))
   \<and> (''2024-01-01T00:00:00Zabc'', 1704067200000)
        \<notin> set (nonces (removeOldNonces (readings [1704067500001])
             (snd (validateResponse example_platform (readings [1704067201000]) new_client
                (example_response ''2024-01-01T00%3A00%3A00Zabc'' example_claimed)
                ''https://a.example/cb''))))"
proof -
  let ?c1 = "snd (validateResponse example_platform (readings [1704067201000]) new_client
        (example_response ''2024-01-01T00%3A00%3A00Zabc'' example_claimed)
        ''https://a.example/cb'')"
  have r: "reachable example_platform ?c1"
    by (rule reachable_validate) (rule reachable_new)
  have s: "nonces ?c1 = [(''2024-01-01T00:00:00Zabc'', 1704067200000)]"
    by (simp add: example_first_call)
  note t = C2_nonce_store_invariant[OF r]
  from t s have "\<exists>d. match_nonce_date (trim ''2024-01-01T00:00:00Zabc'') = Some d
          \<and> date_parse example_platform d = Some 1704067200000"
    by simp
  moreover from t[THEN conjunct2, THEN conjunct1] s
  have "(''2024-01-01T00:00:00Zabc'', 1704067200000)
          \<in> set (nonces (removeOldNonces (readings [1704067500000]) ?c1))"
       "(''2024-01-01T00:00:00Zabc'', 1704067200000)
          \<notin> set (nonces (removeOldNonces (readings [1704067500001]) ?c1))"
    by (simp_all add: readings_def)
  ultimately show ?thesis using r s by simp
qed

text \<open>
  C2 as stated fails when the clock advances between the sweep and the skew check. The
  store holds a nonce of 00:00:00; a response whose nonce is of 00:05:00 arrives when the
  clock shows 00:05:00.000 during the sweep, which keeps the entry (it is 300000 ms away),
  and 00:05:00.001 at the skew check. The response is accepted, and the store in which its
  nonce was looked up holds an entry that is 300001 ms from the clock.
\<close>

theorem C2_counterexample:
  "nonces (snd (validateResponse example_platform (readings [1704067201000]) new_client
        (example_response ''2024-01-01T00%3A00%3A00Zabc'' example_claimed)
        ''https://a.example/cb'')) = [(''2024-01-01T00:00:00Zabc'', 1704067200000)]
   \<and> readings [1704067500000, 1704067500001] 0 = 1704067500000
   \<and> readings [1704067500000, 1704067500001] 1 = 1704067500001
   \<and> nonces (removeOldNonces (readings [1704067500000, 1704067500001])
        \<lparr>nonces = [(''2024-01-01T00:00:00Zabc'', 1704067200000)]\<rparr>)
       = [(''2024-01-01T00:00:00Zabc'', 1704067200000)]
   \<and> validateResponse example_platform (readings [1704067500000, 1704067500001])
        \<lparr>nonces = [(''2024-01-01T00:00:00Zabc'', 1704067200000)]\<rparr>
        (example_response ''2024-01-01T00%3A05%3A00Zxyz'' example_claimed)
        ''https://a.example/cb''
       = (Inr \<lparr>authenticated = Some True,
                claimedIdentifier =
                  Some ''https://steamcommunity.com/openid/id/76561198000000000#frag''\<rparr>,
          \<lparr>nonces = [(''2024-01-01T00:00:00Zabc'', 1704067200000),
                     (''2024-01-01T00:05:00Zxyz'', 1704067500000)]\<rparr>)
   \<and> \<bar>1704067500001 - 1704067200000\<bar> > (300000 :: int)"
  by (simp add: example_first_call
                example_call[OF example_parse_xyz _ example_nonce_xyz] Let_def
                removeOldNonces_def stored_def readings_def FIVE_MINUTES_IN_MS_def)

text \<open>
  C3, on the code. \<open>requestAuthentication\<close> throws for a provider without endpoint and
  \<open>chooseProvider\<close> does not catch it: when the first provider of the discovered list has
  no endpoint, \<open>authenticate\<close> fails with \<open>MissingEndpoint\<close>, whatever providers follow.
  On the list of the specification's scenario the second provider is never tried, though
  \<open>requestAuthentication\<close> would build a URL from it.
\<close>

theorem C3_first_provider_without_endpoint:
  assumes "discover P identifier = Inr (Some (p # rest))" and "\<not> truthy (endpoint p)"
  shows "authenticate P identifier returnUrl = Inl MissingEndpoint"
  using assms by (simp add: authenticate_def requestAuthentication_def)

theorem C3_first_provider_without_endpoint_witness:
  "discover endpointless_first_platform ''https://steamcommunity.com/openid''
     = Inr (Some [\<lparr>endpoint = None, version = None\<rparr>, steam_provider])
   \<and> authenticate endpointless_first_platform ''https://steamcommunity.com/openid''
        ''https://a.example/cb'' = Inl MissingEndpoint
   \<and> requestAuthentication endpointless_first_platform steam_provider ''https://a.example/cb''
       = Inr (''https://steamcommunity.com/openid/login?openid.mode=checkid_setup''
              @ ''&openid.ns=http%3A%2F%2Fspecs.openid.net%2Fauth%2F2.0''
              @ ''&openid.claimed_id=http%3A%2F%2Fspecs.openid.net%2Fauth%2F2.0%2Fidentifier_select''
              @ ''&openid.identity=http%3A%2F%2Fspecs.openid.net%2Fauth%2F2.0%2Fidentifier_select''
              @ ''&openid.return_to=https%3A%2F%2Fa.example%2Fcb'')"
proof -
  have h1: "discover endpointless_first_platform ''https://steamcommunity.com/openid''
              = Inr (Some [\<lparr>endpoint = None, version = None\<rparr>, steam_provider])"
    by (simp add: endpointless_first_platform_def)
  have h2: "\<not> truthy (endpoint \<lparr>endpoint = None, version = None\<rparr>)"
    by (simp add: truthy_def)
  have h3: "requestAuthentication endpointless_first_platform steam_provider ''https://a.example/cb''
       = Inr (''https://steamcommunity.com/openid/login?openid.mode=checkid_setup''
              @ ''&openid.ns=http%3A%2F%2Fspecs.openid.net%2Fauth%2F2.0''
              @ ''&openid.claimed_id=http%3A%2F%2Fspecs.openid.net%2Fauth%2F2.0%2Fidentifier_select''
              @ ''&openid.identity=http%3A%2F%2Fspecs.openid.net%2Fauth%2F2.0%2Fidentifier_select''
              @ ''&openid.return_to=https%3A%2F%2Fa.example%2Fcb'')"
    by code_simp
  from h1 h3 C3_first_provider_without_endpoint[OF h1 h2, of "''https://a.example/cb''"]
  show ?thesis by simp
qed

text \<open>
  C4. For a 2.0 response whose nonce carries a date that matches the pattern and parses to
  the time value \<open>ts\<close>, \<open>checkNonce\<close> fails with \<open>NonceSkewTooLarge\<close> exactly when
  \<open>\<bar>now - ts\<bar>\<close> exceeds 300000 ms, \<open>now\<close> being what the clock returns at the skew check
  (the read that follows those of the sweep); at a distance of exactly 300000 ms a nonce
  that is not in the store is accepted and stored with its time value.
\<close>

theorem C4_skew_boundary:
  assumes "\<not> openid1_only ps"
      and "params_get ps ''openid.response_nonce'' = Some n" and "n \<noteq> []"
      and "match_nonce_date (trim n) = Some d" and "date_parse P d = Some ts"
  shows "(fst (checkNonce P now c ps) = Inl NonceSkewTooLarge
            \<longleftrightarrow> \<bar>now (length (nonces c)) - ts\<bar> > 300000)
       \<and> (\<bar>now (length (nonces c)) - ts\<bar> = 300000 \<longrightarrow> \<not> stored c n \<longrightarrow>
            fst (checkNonce P now c ps) = Inr ()
            \<and> (n, ts) \<in> set (nonces (snd (checkNonce P now c ps))))"
  unfolding checkNonce_past_parsing[OF assms]
  using removeOldNonces_stored[of now c n]
  by (auto simp: Let_def)

theorem C4_skew_boundary_witness:
  "date_parse example_platform ''2024-01-01T00:00:00Z'' = Some 1704067200000
   \<and> fst (checkNonce example_platform (readings [1704067500000]) new_client
          [(''openid.response_nonce'', ''2024-01-01T00:00:00Zabc'')]) = Inr ()
   \<and> fst (checkNonce example_platform (readings [1704066900000]) new_client
          [(''openid.response_nonce'', ''2024-01-01T00:00:00Zabc'')]) = Inr ()
   \<and> fst (checkNonce example_platform (readings [1704067500001]) new_client
          [(''openid.response_nonce'', ''2024-01-01T00:00:00Zabc'')]) = Inl NonceSkewTooLarge
   \<and> fst (checkNonce example_platform (readings [1704066899999]) new_client
          [(''openid.response_nonce'', ''2024-01-01T00:00:00Zabc'')]) = Inl NonceSkewTooLarge"
proof -
  let ?ps = "[(''openid.response_nonce'', ''2024-01-01T00:00:00Zabc'')]"
  have h1: "\<not> openid1_only ?ps" by code_simp
  have h2: "params_get ?ps ''openid.response_nonce'' = Some ''2024-01-01T00:00:00Zabc''"
    by code_simp
  have h3: "''2024-01-01T00:00:00Zabc'' \<noteq> []" by simp
  have h4: "match_nonce_date (trim ''2024-01-01T00:00:00Zabc'') = Some ''2024-01-01T00:00:00Z''"
    by code_simp
  have h5: "date_parse example_platform ''2024-01-01T00:00:00Z'' = Some 1704067200000"
    by code_simp
  note t = C4_skew_boundary[OF h1 h2 h3 h4 h5, of _ new_client]
  from h5 t[of "readings [1704067500000]"] t[of "readings [1704066900000]"] t[of "readings [1704067500001]"] t[of "readings [1704066899999]"]
  show ?thesis by (simp add: new_client_def stored_def readings_def)
qed

text \<open>
  C5. Once scheme, host and path of \<open>returnUrl\<close> and of \<open>openid.return_to\<close> agree, the
  return-URL stage ends in exactly one of two ways: it fails with \<open>QueryParamMismatch\<close>
  when \<open>returnUrl\<close> has a query and that query, as written and with its \<open>?\<close>, is not
  contained in the query string of the response URL, and it passes otherwise. So when it
  passes, every parameter written on \<open>returnUrl\<close> occurs verbatim in the query string of
  the response URL, and when one of them does not occur there, the stage fails with
  \<open>QueryParamMismatch\<close>.
\<close>

theorem C5_return_url_query_binding:
  assumes "new_URL P responseText = Some U"
      and "clientReturnUrl \<noteq> []"
      and "params_get (searchParams U) ''openid.return_to'' = Some rt" and "rt \<noteq> []"
      and "parseURL P rt = Some R" and "parseURL P clientReturnUrl = Some C"
      and "protocol C = protocol R" and "host C = host R" and "pathname C = pathname R"
  shows "checkReturnUrlsAreValid P U clientReturnUrl =
           (if search C \<noteq> [] \<and> \<not> str_includes (search U) (search C)
            then Inl QueryParamMismatch else Inr ())
       \<and> (checkReturnUrlsAreValid P U clientReturnUrl = Inr () \<longrightarrow>
            (\<forall>p \<in> set (query_sequences (case u_query (url C) of None \<Rightarrow> [] | Some q \<Rightarrow> q)).
               str_includes (search U) p))
       \<and> ((\<exists>p \<in> set (query_sequences (case u_query (url C) of None \<Rightarrow> [] | Some q \<Rightarrow> q)).
               \<not> str_includes (search U) p) \<longrightarrow>
            checkReturnUrlsAreValid P U clientReturnUrl = Inl QueryParamMismatch)"
proof -
  let ?qc = "case u_query (url C) of None \<Rightarrow> [] | Some q \<Rightarrow> q"
  from assms(1) obtain u where U: "U = URL_of u"
    by (auto simp: new_URL_def)
  from assms(3) have ne: "search U \<noteq> []"
    unfolding U by (rule URL_of_search_nonempty)
  have res: "checkReturnUrlsAreValid P U clientReturnUrl =
           (if search C \<noteq> [] \<and> \<not> str_includes (search U) (search C)
            then Inl QueryParamMismatch else Inr ())"
    using assms ne by (simp add: checkReturnUrlsAreValid_def truthy_def)
  have incl: "str_includes (search U) p"
    if ok: "checkReturnUrlsAreValid P U clientReturnUrl = Inr ()"
      and p: "p \<in> set (query_sequences ?qc)" for p
  proof (cases "search C = []")
    case True
    then have "?qc = []"
      by (auto simp: search_def split: option.splits if_splits)
    with p show ?thesis by (simp add: query_sequences_def)
  next
    case False
    then have sc: "search C = ''?'' @ ?qc"
      by (auto simp: search_def split: option.splits if_splits)
    from ok res False have "sublist (search C) (search U)"
      by (auto simp: str_includes_def split: if_splits)
    have "sublist ?qc (search C)"
      unfolding sc by (rule sublist_append_leftI)
    with query_sequences_sublist[OF p] have "sublist p (search C)"
      by (rule sublist_transitive)
    then have "sublist p (search U)"
      using \<open>sublist (search C) (search U)\<close> by (rule sublist_transitive)
    then show ?thesis
      by (simp add: str_includes_def)
  qed
  from res have two: "checkReturnUrlsAreValid P U clientReturnUrl = Inr ()
                    \<or> checkReturnUrlsAreValid P U clientReturnUrl = Inl QueryParamMismatch"
    by (simp split: if_splits)
  from res incl two show ?thesis by blast
qed

theorem C5_return_url_query_binding_witness:
  "checkReturnUrlsAreValid example_platform
     (the (new_URL example_platform (example_bound_response ''x=1&y=2'')))
     ''https://a.example/cb?x=1&y=2'' = Inr ()
   \<and> str_includes
        (search (the (new_URL example_platform (example_bound_response ''x=1&y=2'')))) ''x=1''
   \<and> str_includes
        (search (the (new_URL example_platform (example_bound_response ''x=1&y=2'')))) ''y=2''
   \<and> checkReturnUrlsAreValid example_platform
        (the (new_URL example_platform (example_bound_response ''x=1'')))
        ''https://a.example/cb?x=1&y=2'' = Inl QueryParamMismatch
   \<and> checkReturnUrlsAreValid example_platform
        (the (new_URL example_platform (example_bound_response ''y=2&x=1'')))
        ''https://a.example/cb?x=1&y=2'' = Inl QueryParamMismatch"
proof -
  let ?P = example_platform
  let ?client = "''https://a.example/cb?x=1&y=2''"
  let ?U = "the (new_URL ?P (example_bound_response ''x=1&y=2''))"
  let ?V = "the (new_URL ?P (example_bound_response ''x=1''))"
  let ?C = "the (parseURL ?P ?client)"
  have u1: "new_URL ?P (example_bound_response ''x=1&y=2'') = Some ?U"
   and v1: "new_URL ?P (example_bound_response ''x=1'') = Some ?V"
   and c1: "parseURL ?P ?client = Some ?C"
    by code_simp+
  have u3: "params_get (searchParams ?U) ''openid.return_to'' = Some ?client"
   and v3: "params_get (searchParams ?V) ''openid.return_to'' = Some ?client"
    by code_simp+
  have ne: "?client \<noteq> []" by simp
  have same: "protocol ?C = protocol ?C" "host ?C = host ?C" "pathname ?C = pathname ?C"
    by simp_all
  note tu = C5_return_url_query_binding[OF u1 ne u3 ne c1 c1 same]
  note tv = C5_return_url_query_binding[OF v1 ne v3 ne c1 c1 same]
  have ok: "checkReturnUrlsAreValid ?P ?U ?client = Inr ()"
    by code_simp
  have seqs: "query_sequences (case u_query (url ?C) of None \<Rightarrow> [] | Some q \<Rightarrow> q)
                = [''x=1'', ''y=2'']"
    by code_simp
  have dropped: "\<not> str_includes (search ?V) ''y=2''"
    by code_simp
  have reordered: "checkReturnUrlsAreValid ?P
        (the (new_URL ?P (example_bound_response ''y=2&x=1''))) ?client
        = Inl QueryParamMismatch"
    by code_simp
  from tu[THEN conjunct2, THEN conjunct1] ok seqs have "str_includes (search ?U) ''x=1''" "str_includes (search ?U) ''y=2''"
    by simp_all
  moreover from tv[THEN conjunct2, THEN conjunct2] seqs dropped
  have "checkReturnUrlsAreValid ?P ?V ?client = Inl QueryParamMismatch"
    by simp
  ultimately show ?thesis using ok reordered by simp
qed

text \<open>
  C6. A response that passes the return-URL check and whose \<open>openid.mode\<close> is \<open>cancel\<close>
  fails with \<open>AuthenticationCancelled\<close>, and the client, hence its nonce store, is the one
  the call started with.
\<close>

theorem C6_cancel_leaves_store:
  assumes "new_URL P (trim responseUrl) = Some U"
      and "checkReturnUrlsAreValid P U returnUrl = Inr ()"
      and "params_get (searchParams U) ''openid.mode'' = Some ''cancel''"
  shows "validateResponse P now c responseUrl returnUrl = (Inl AuthenticationCancelled, c)"
  using assms by (simp add: validateResponse_def checkParams_def)

theorem C6_cancel_leaves_store_witness:
  "new_URL example_platform
     (trim ''https://a.example/cb?openid.mode=cancel&openid.return_to=https%3A%2F%2Fa.example%2Fcb'')
     \<noteq> None
   \<and> validateResponse example_platform (readings [1704067201000]) new_client
       ''https://a.example/cb?openid.mode=cancel&openid.return_to=https%3A%2F%2Fa.example%2Fcb''
       ''https://a.example/cb''
     = (Inl AuthenticationCancelled, new_client)"
proof -
  let ?r = "''https://a.example/cb?openid.mode=cancel&openid.return_to=https%3A%2F%2Fa.example%2Fcb''"
  let ?U = "the (new_URL example_platform (trim ?r))"
  have h0: "new_URL example_platform (trim ?r) \<noteq> None"
    by code_simp
  then have h1: "new_URL example_platform (trim ?r) = Some ?U"
    by simp
  have h2: "checkReturnUrlsAreValid example_platform ?U ''https://a.example/cb'' = Inr ()"
    by code_simp
  have h3: "params_get (searchParams ?U) ''openid.mode'' = Some ''cancel''"
    by code_simp
  from h0 C6_cancel_leaves_store[OF h1 h2 h3, of "readings [1704067201000]" new_client]
  show ?thesis by simp
qed

text \<open>
  C7. For a response that passes the return-URL, parameter and nonce stages, carries a
  signature, and whose \<open>openid.claimed_id\<close> value \<open>v\<close> holds a \<open>#\<close>, the outcome of the call
  is decided by what discovery answers for \<open>v\<close> cut before its first \<open>#\<close>, and for no other
  identifier: an exception there is passed on, no provider there is
  \<open>NoProviderForClaimedIdentifier\<close>, and a provider there makes the call return
  \<open>{authenticated: true, claimedIdentifier: v}\<close> with \<open>v\<close> whole. This holds for every
  discovery, whatever it answers for \<open>v\<close> itself.
\<close>

theorem C7_fragment_canonicalization:
  assumes "new_URL P (trim responseUrl) = Some U"
      and "checkReturnUrlsAreValid P U returnUrl = Inr ()"
      and "checkParams (Some (searchParams U)) = Inr ()"
      and "checkNonce P now c (searchParams U) = (Inr (), c')"
      and "params_get (searchParams U) ''openid.claimed_id'' = Some v"
      and "CHR ''#'' \<in> set v"
      and "truthy (params_get (searchParams U) ''openid.signed'')"
      and "truthy (params_get (searchParams U) ''openid.sig'')"
  shows "getCanonicalClaimedIdentifier v = takeWhile (\<lambda>x. x \<noteq> CHR ''#'') v
       \<and> validateResponse P now c responseUrl returnUrl
           = (case discover P (takeWhile (\<lambda>x. x \<noteq> CHR ''#'') v) of
                Inl m \<Rightarrow> Inl (DiscoveryFailed m)
              | Inr None \<Rightarrow> Inl NoProviderForClaimedIdentifier
              | Inr (Some providers) \<Rightarrow>
                  if providers = [] then Inl NoProviderForClaimedIdentifier
                  else Inr \<lparr>authenticated = Some True, claimedIdentifier = Some v\<rparr>,
              c')"
proof -
  from assms(6) have "v \<noteq> []" by auto
  with assms show ?thesis
    by (simp add: validateResponse_def verifyDiscoveredInformation_def Let_def truthy_def
                  getCanonicalClaimedIdentifier_takeWhile
             split: sum.splits option.splits)
qed

theorem C7_fragment_canonicalization_witness:
  "discover example_platform ''https://steamcommunity.com/openid/id/76561198000000000#frag''
     = Inr None
   \<and> discover example_platform ''https://steamcommunity.com/openid/id/76561198000000000''
     = Inr (Some [steam_provider])
   \<and> fst (validateResponse example_platform (readings [1704067201000]) new_client
          (example_response ''2024-01-01T00%3A00%3A00Zabc'' example_claimed)
          ''https://a.example/cb'')
     = Inr \<lparr>authenticated = Some True,
            claimedIdentifier =
              Some ''https://steamcommunity.com/openid/id/76561198000000000#frag''\<rparr>
   \<and> discover fragment_only_platform
        ''https://steamcommunity.com/openid/id/76561198000000000#frag''
     = Inr (Some [steam_provider])
   \<and> discover fragment_only_platform ''https://steamcommunity.com/openid/id/76561198000000000''
     = Inr None
   \<and> fst (validateResponse fragment_only_platform (readings [1704067201000]) new_client
          (example_response ''2024-01-01T00%3A00%3A00Zabc'' example_claimed)
          ''https://a.example/cb'')
     = Inl NoProviderForClaimedIdentifier"
proof -
  let ?v = "''https://steamcommunity.com/openid/id/76561198000000000#frag''"
  let ?cut = "''https://steamcommunity.com/openid/id/76561198000000000''"
  let ?ps = "example_params ''2024-01-01T00:00:00Zabc'' ?v"
  let ?U = "example_URL (example_query ''2024-01-01T00%3A00%3A00Zabc'' example_claimed) ?ps"
  let ?now = "readings [1704067201000]"
  let ?d = "\<lambda>identifier. if identifier = ?v then Inr (Some [steam_provider]) else Inr None"
  have sp: "searchParams ?U = ?ps"
    by (simp add: example_URL_def)
  have cut: "takeWhile (\<lambda>x. x \<noteq> CHR ''#'') ?v = ?cut"
    by simp
  have d0: "discover example_platform ?v = Inr None"
   and d1: "discover example_platform ?cut = Inr (Some [steam_provider])"
    by code_simp+
  have f: "fragment_only_platform = example_platform\<lparr>discover := ?d\<rparr>"
    by (simp add: fragment_only_platform_def)
  have f0: "discover fragment_only_platform ?v = Inr (Some [steam_provider])"
   and f1: "discover fragment_only_platform ?cut = Inr None"
    by (simp_all add: fragment_only_platform_def)
  have h3: "checkParams (Some (searchParams ?U)) = Inr ()"
    unfolding sp by (rule example_checkParams)
  have n: "params_get ?ps ''openid.response_nonce'' = Some ''2024-01-01T00:00:00Zabc''"
    by (simp add: example_params_def params_get_def)
  have h4: "checkNonce example_platform ?now new_client (searchParams ?U)
              = (Inr (), snd (checkNonce example_platform ?now new_client (searchParams ?U)))"
    unfolding sp
    by (simp add: checkNonce_past_parsing[OF example_v2 n _ example_nonce_abc(1,3)] Let_def
                  removeOldNonces_def new_client_def stored_def readings_def)
  have h5: "params_get (searchParams ?U) ''openid.claimed_id'' = Some ?v"
    unfolding sp by (simp add: example_params_def params_get_def)
  have h6: "CHR ''#'' \<in> set ?v" by simp
  have h7: "truthy (params_get (searchParams ?U) ''openid.signed'')"
    unfolding sp by (simp add: example_params_def params_get_def truthy_def)
  have h8: "truthy (params_get (searchParams ?U) ''openid.sig'')"
    unfolding sp by (simp add: example_params_def params_get_def truthy_def)
  have g1: "new_URL fragment_only_platform
              (trim (example_response ''2024-01-01T00%3A00%3A00Zabc'' example_claimed))
              = Some ?U"
    unfolding f discover_update_irrelevant by (rule example_parse_abc)
  have g2: "checkReturnUrlsAreValid fragment_only_platform ?U ''https://a.example/cb'' = Inr ()"
    unfolding f discover_update_irrelevant by (rule example_binding)
  have g4: "checkNonce fragment_only_platform ?now new_client (searchParams ?U)
              = (Inr (), snd (checkNonce example_platform ?now new_client (searchParams ?U)))"
    unfolding f discover_update_irrelevant by (rule h4)
  from C7_fragment_canonicalization[OF example_parse_abc example_binding h3 h4 h5 h6 h7 h8]
  have "fst (validateResponse example_platform ?now new_client
          (example_response ''2024-01-01T00%3A00%3A00Zabc'' example_claimed)
          ''https://a.example/cb'')
     = Inr \<lparr>authenticated = Some True, claimedIdentifier = Some ?v\<rparr>"
    unfolding cut d1 by simp
  moreover
  from C7_fragment_canonicalization[OF g1 g2 h3 g4 h5 h6 h7 h8]
  have "fst (validateResponse fragment_only_platform ?now new_client
          (example_response ''2024-01-01T00%3A00%3A00Zabc'' example_claimed)
          ''https://a.example/cb'')
     = Inl NoProviderForClaimedIdentifier"
    unfolding cut f1 by simp
  ultimately show ?thesis
    using d0 d1 f0 f1 by simp
qed

text \<open>
  C8, as the code has it. \<open>validateResponse\<close> constructs the URL of the response before it
  looks at \<open>returnUrl\<close>: with the empty string as \<open>returnUrl\<close> it fails with
  \<open>EmptyClientReturnUrl\<close> for every response URL that parses, whatever its content, and
  with the \<open>TypeError\<close> of the URL constructor for one that does not parse. The client is
  left as it was.
\<close>

theorem C8_empty_return_url:
  "validateResponse P now c responseUrl [] =
     (if new_URL P (trim responseUrl) = None then (Inl InvalidUrl, c)
      else (Inl EmptyClientReturnUrl, c))"
  by (simp add: validateResponse_def checkReturnUrlsAreValid_def split: option.splits)

theorem C8_empty_return_url_witness:
  "new_URL example_platform (trim ''https://a.example/cb?openid.mode=id_res'') \<noteq> None
   \<and> validateResponse example_platform (readings [0]) new_client ''https://a.example/cb?openid.mode=id_res'' []
       = (Inl EmptyClientReturnUrl, new_client)"
proof -
  have h: "new_URL example_platform (trim ''https://a.example/cb?openid.mode=id_res'') \<noteq> None"
    by code_simp
  with C8_empty_return_url[of example_platform "readings [0]" new_client
        "''https://a.example/cb?openid.mode=id_res''"]
  show ?thesis by simp
qed

text \<open>
  C8 as stated fails on a response URL that is not a URL: the constructor throws first.
\<close>

theorem C8_counterexample:
  "fst (validateResponse example_platform (readings [0]) new_client ''not a url'' []) = Inl InvalidUrl
   \<and> fst (validateResponse example_platform (readings [0]) new_client ''not a url'' [])
       \<noteq> Inl EmptyClientReturnUrl"
  by code_simp

text \<open>
  C9, as the code has it. When the first provider that discovery returns has an endpoint
  and the endpoint parses as a URL, \<open>authenticate\<close> returns the endpoint, serialized without
  the query it had, followed by \<open>?\<close>, the five parameters in form-urlencoded form and the
  endpoint's fragment, if it had one. Parsed back, that query gives \<open>openid.mode\<close> as
  \<open>checkid_setup\<close>, \<open>openid.ns\<close> as the 2.0 namespace, \<open>openid.claimed_id\<close> and
  \<open>openid.identity\<close> as the \<open>identifier_select\<close> URL, and \<open>openid.return_to\<close> as \<open>returnUrl\<close>
  exactly.
\<close>

theorem C9_redirect_url:
  assumes "discover P identifier = Inr (Some (p # rest))"
      and "endpoint p = Some e" and "e \<noteq> []"
      and "url_parser P e = Some u"
  shows "let q = ''openid.mode=checkid_setup''
                 @ ''&openid.ns=http%3A%2F%2Fspecs.openid.net%2Fauth%2F2.0''
                 @ ''&openid.claimed_id=http%3A%2F%2Fspecs.openid.net%2Fauth%2F2.0%2Fidentifier_select''
                 @ ''&openid.identity=http%3A%2F%2Fspecs.openid.net%2Fauth%2F2.0%2Fidentifier_select''
                 @ ''&openid.return_to='' @ urlencoded_string returnUrl
         in authenticate P identifier returnUrl
              = Inr (toString (URL_of (u\<lparr>u_query := None, u_fragment := None\<rparr>)) @ ''?'' @ q
                     @ (case u_fragment u of None \<Rightarrow> [] | Some f \<Rightarrow> ''#'' @ f))
            \<and> urlencoded_parse q
                = [(''openid.mode'', ''checkid_setup''),
                   (''openid.ns'', ''http://specs.openid.net/auth/2.0''),
                   (''openid.claimed_id'', ''http://specs.openid.net/auth/2.0/identifier_select''),
                   (''openid.identity'', ''http://specs.openid.net/auth/2.0/identifier_select''),
                   (''openid.return_to'', returnUrl)]"
proof -
  let ?q = "urlencoded_serialize (auth_params returnUrl)"
  have q: "?q = ''openid.mode=checkid_setup''
                 @ ''&openid.ns=http%3A%2F%2Fspecs.openid.net%2Fauth%2F2.0''
                 @ ''&openid.claimed_id=http%3A%2F%2Fspecs.openid.net%2Fauth%2F2.0%2Fidentifier_select''
                 @ ''&openid.identity=http%3A%2F%2Fspecs.openid.net%2Fauth%2F2.0%2Fidentifier_select''
                 @ ''&openid.return_to='' @ urlencoded_string returnUrl"
    by (simp add: auth_params_def auth_params_encoded)
  have "distinct (map fst (auth_params returnUrl))" "auth_params returnUrl \<noteq> []"
    by (simp_all add: auth_params_def)
  from fold_searchParams_set[OF this(1) _ this(2), of "[]" "u\<lparr>u_query := None\<rparr>"]
  have "fold (\<lambda>(key, v) U. searchParams_set U key v) (auth_params returnUrl)
          (set_search_empty (URL_of u))
        = \<lparr>url = u\<lparr>u_query := Some ?q\<rparr>, searchParams = auth_params returnUrl\<rparr>"
    by (simp add: set_search_empty_def URL_of_def)
  with assms(4) have "buildUrl P e (auth_params returnUrl)
        = Inr (toString \<lparr>url = u\<lparr>u_query := Some ?q\<rparr>, searchParams = auth_params returnUrl\<rparr>)"
    by (simp add: buildUrl_def new_URL_def)
  with assms(1,2,3) have "authenticate P identifier returnUrl
        = Inr (toString \<lparr>url = u\<lparr>u_query := Some ?q\<rparr>, searchParams = auth_params returnUrl\<rparr>)"
    by (simp add: authenticate_def requestAuthentication_def truthy_def toString_nonempty)
  moreover have "urlencoded_parse ?q = auth_params returnUrl"
    by (rule urlencoded_parse_serialize)
  ultimately show ?thesis
    unfolding toString_with_query q Let_def
    by (simp add: auth_params_def)
qed

theorem C9_redirect_url_witness:
  "discover query_endpoint_platform ''https://steamcommunity.com/openid''
     = Inr (Some [\<lparr>endpoint = Some ''https://steamcommunity.com/openid/login?old=1#top'',
                    version = None\<rparr>])
   \<and> authenticate query_endpoint_platform ''https://steamcommunity.com/openid''
        ''https://a.example/cb''
     = Inr (''https://steamcommunity.com/openid/login?openid.mode=checkid_setup''
            @ ''&openid.ns=http%3A%2F%2Fspecs.openid.net%2Fauth%2F2.0''
            @ ''&openid.claimed_id=http%3A%2F%2Fspecs.openid.net%2Fauth%2F2.0%2Fidentifier_select''
            @ ''&openid.identity=http%3A%2F%2Fspecs.openid.net%2Fauth%2F2.0%2Fidentifier_select''
            @ ''&openid.return_to=https%3A%2F%2Fa.example%2Fcb#top'')"
proof -
  let ?e = "''https://steamcommunity.com/openid/login?old=1#top''"
  let ?u = "the (url_parser query_endpoint_platform ?e)"
  have h1: "discover query_endpoint_platform ''https://steamcommunity.com/openid''
              = Inr (Some [\<lparr>endpoint = Some ?e, version = None\<rparr>])"
    by (simp add: query_endpoint_platform_def)
  have h2: "endpoint \<lparr>endpoint = Some ?e, version = None\<rparr> = Some ?e" by simp
  have h3: "?e \<noteq> []" by simp
  have h4: "url_parser query_endpoint_platform ?e = Some ?u"
    by code_simp
  have base: "toString (URL_of (?u\<lparr>u_query := None, u_fragment := None\<rparr>))
                = ''https://steamcommunity.com/openid/login''"
    by code_simp
  have frag: "u_fragment ?u = Some ''top''"
    by code_simp
  have ret: "urlencoded_string ''https://a.example/cb'' = ''https%3A%2F%2Fa.example%2Fcb''"
    by code_simp
  from C9_redirect_url[OF h1 h2 h3 h4, of "''https://a.example/cb''"] h1
  show ?thesis
    by (simp add: Let_def base frag ret)
qed

text \<open>
  C9 as stated fails when the provider's endpoint is not an absolute URL: the URL
  constructor throws, and \<open>authenticate\<close> returns no URL.
\<close>

theorem C9_counterexample:
  "discover relative_endpoint_platform ''https://steamcommunity.com/openid''
     = Inr (Some [\<lparr>endpoint = Some ''/openid/login'', version = None\<rparr>])
   \<and> authenticate relative_endpoint_platform ''https://steamcommunity.com/openid''
        ''https://a.example/cb'' = Inl InvalidUrl"
  by code_simp

text \<open>
  C10. Two positive 2.0 assertions that differ only in a trailing space of the nonce
  (\<open>...Zabc\<close> and \<open>...Zabc%20\<close> in the query) are both accepted, one after the other at the
  same reading of the clock: the second is not a replay, because the store is keyed on the
  nonce as received while the date is read from the trimmed nonce. Afterwards the store
  holds both nonces with the same time value.
\<close>

theorem C10_whitespace_nonces_both_accepted:
  "map_option (\<lambda>U. params_get (searchParams U) ''openid.response_nonce'')
     (new_URL example_platform
        (trim (example_response ''2024-01-01T00%3A00%3A00Zabc'' example_claimed)))
     = Some (Some ''2024-01-01T00:00:00Zabc'')
   \<and> map_option (\<lambda>U. params_get (searchParams U) ''openid.response_nonce'')
     (new_URL example_platform
        (trim (example_response ''2024-01-01T00%3A00%3A00Zabc%20'' example_claimed)))
     = Some (Some ''2024-01-01T00:00:00Zabc '')
   \<and> trim ''2024-01-01T00:00:00Zabc '' = trim ''2024-01-01T00:00:00Zabc''
   \<and> fst (validateResponse example_platform (readings [1704067201000]) new_client
          (example_response ''2024-01-01T00%3A00%3A00Zabc'' example_claimed)
          ''https://a.example/cb'')
     = Inr \<lparr>authenticated = Some True,
            claimedIdentifier =
              Some ''https://steamcommunity.com/openid/id/76561198000000000#frag''\<rparr>
   \<and> fst (validateResponse example_platform (readings [1704067201000])
          (snd (validateResponse example_platform (readings [1704067201000]) new_client
                  (example_response ''2024-01-01T00%3A00%3A00Zabc'' example_claimed)
                  ''https://a.example/cb''))
          (example_response ''2024-01-01T00%3A00%3A00Zabc%20'' example_claimed)
          ''https://a.example/cb'')
     = Inr \<lparr>authenticated = Some True,
            claimedIdentifier =
              Some ''https://steamcommunity.com/openid/id/76561198000000000#frag''\<rparr>
   \<and> nonces (snd (validateResponse example_platform (readings [1704067201000])
          (snd (validateResponse example_platform (readings [1704067201000]) new_client
                  (example_response ''2024-01-01T00%3A00%3A00Zabc'' example_claimed)
                  ''https://a.example/cb''))
          (example_response ''2024-01-01T00%3A00%3A00Zabc%20'' example_claimed)
          ''https://a.example/cb''))
       = [(''2024-01-01T00:00:00Zabc'', 1704067200000),
          (''2024-01-01T00:00:00Zabc '', 1704067200000)]"
proof -
  have t: "trim ''2024-01-01T00:00:00Zabc '' = trim ''2024-01-01T00:00:00Zabc''"
    by code_simp
  show ?thesis
    apply (simp only: t example_parse_abc example_parse_abc_space example_first_call
                      fst_conv snd_conv)
    apply (simp add: example_call[OF example_parse_abc_space _ example_nonce_abc(2,3)]
                     example_URL_def example_params_def params_get_def
                     Let_def removeOldNonces_def stored_def readings_def
                     FIVE_MINUTES_IN_MS_def)
    done
qed

theorem C10_whitespace_nonces_both_accepted_witness:
  "fst (validateResponse example_platform (readings [1704067201000])
          (snd (validateResponse example_platform (readings [1704067201000]) new_client
                  (example_response ''2024-01-01T00%3A00%3A00Zabc'' example_claimed)
                  ''https://a.example/cb''))
          (example_response ''2024-01-01T00%3A00%3A00Zabc%20'' example_claimed)
          ''https://a.example/cb'')
     \<noteq> Inl NonceReplayed"
  using C10_whitespace_nonces_both_accepted by simp

end
